theory Spec2Isabelle
  imports Complex_Main
begin

section \<open>Notes (types)\<close>

datatype NoteType = THOUGHT | ARTICLE | CHAT | UNKNOWN

text \<open>The string value of each member of the enum.\<close>

fun NoteType_value :: "NoteType \<Rightarrow> string" where
  "NoteType_value THOUGHT = ''thought''"
| "NoteType_value ARTICLE = ''article''"
| "NoteType_value CHAT = ''chat''"
| "NoteType_value UNKNOWN = ''unknown''"

record media =
  mimeType :: string
  data :: string

text \<open>
  Field names are global in a theory, so the fields of a note carry the prefix \<open>note_\<close>
  and those of a classification result the prefix \<open>res_\<close>. The creation time is in
  milliseconds.
\<close>

record NoteItem =
  note_id :: string
  note_content :: string
  note_type :: NoteType
  note_title :: string
  note_summary :: string
  createdAt :: int
  note_sourceUrl :: "string option"
  note_media :: "media option"

text \<open>A string that JavaScript takes as false in a condition: undefined or empty.\<close>

definition falsy :: "string option \<Rightarrow> bool" where
  "falsy x = (case x of None \<Rightarrow> True | Some t \<Rightarrow> t = [])"

section \<open>The classifier and the report writer (geminiService)\<close>

text \<open>
  What the functions take from outside is a parameter: the API key of the environment,
  the remote call \<open>generateContent\<close> (it returns the text of the response, which may be
  undefined, or throws), \<open>JSON.parse\<close> (None when it throws a SyntaxError),
  \<open>JSON.stringify\<close> and \<open>toLocaleDateString\<close>. A thrown exception is the left
  summand of the result.
\<close>

datatype failure =
    ApiKeyNotFound
  | GenerateContentError string
  | SyntaxError
  | TypeError

text \<open>
  getClient throws when the API key is undefined or empty; otherwise it makes the
  client.
\<close>

definition getClient :: "string option \<Rightarrow> failure + unit" where
  "getClient apiKey = (if falsy apiKey then Inl ApiKeyNotFound else Inr ())"

text \<open>
  A request names the model and carries the contents. The fixed English instructions
  of the two prompts are not reproduced: of the classifier prompt the request keeps the
  optional media part and the text put into the prompt, of the report prompt the JSON
  text of the items.
\<close>

datatype part = InlineData string string | TextPrompt string

datatype contents = Parts "part list" | ReportPrompt string

record request =
  model :: string
  contents :: contents

text \<open>A value as JSON.parse returns it. An object lists each of its properties once.\<close>

datatype jsval =
    JUndefined
  | JNull
  | JBool bool
  | JNum real
  | JStr string
  | JArr "jsval list"
  | JObj "(string \<times> jsval) list"

fun truthy :: "jsval \<Rightarrow> bool" where
  "truthy JUndefined = False"
| "truthy JNull = False"
| "truthy (JBool b) = b"
| "truthy (JNum x) = (x \<noteq> 0)"
| "truthy (JStr t) = (t \<noteq> [])"
| "truthy (JArr xs) = True"
| "truthy (JObj kvs) = True"

text \<open>
  Reading one of the properties type, title, summary, content or sourceUrl of a value
  that is not null: an object gives the property's value or undefined; a number, a
  boolean, a string or an array has none of the five.
\<close>

fun property :: "jsval \<Rightarrow> string \<Rightarrow> jsval" where
  "property (JObj kvs) k = (case map_of kvs k of None \<Rightarrow> JUndefined | Some v \<Rightarrow> v)"
| "property v k = JUndefined"

text \<open>The expression \<open>a || b\<close>.\<close>

definition or_else :: "jsval \<Rightarrow> jsval \<Rightarrow> jsval" where
  "or_else a b = (if truthy a then a else b)"

text \<open>
  The fields of the result hold whatever the response holds: a truthy value of any
  kind is passed on as it is.
\<close>

record ClassificationResult =
  res_type :: NoteType
  res_title :: jsval
  res_summary :: jsval
  res_sourceUrl :: jsval
  res_content :: jsval

text \<open>
  The two replace calls that remove a Markdown code fence. A character of a text stands
  for one UTF-16 code unit below 256; among these the class \<open>\s\<close> holds the tab, the
  line feed, the vertical tab, the form feed, the carriage return, the space and the
  no-break space U+00A0. The second pattern is anchored at the end of the text, and its
  leftmost match takes the whole run of white space before the closing fence.
\<close>

definition is_space :: "char \<Rightarrow> bool" where
  "is_space c =
     (c \<in> set [CHR '' '', CHR 0x09, CHR 0x0A, CHR 0x0B, CHR 0x0C, CHR 0x0D, CHR 0xA0])"

definition strip_fence_open :: "string \<Rightarrow> string" where
  "strip_fence_open t =
     (if take 7 t = ''```json'' then dropWhile is_space (drop 7 t) else t)"

definition strip_fence_close :: "string \<Rightarrow> string" where
  "strip_fence_close t =
     (if take 3 (rev t) = ''```'' then rev (dropWhile is_space (drop 3 (rev t))) else t)"

definition response_json :: "string option \<Rightarrow> string" where
  "response_json response_text =
     (let jsonStr = (if falsy response_text then ''{}'' else the response_text)
      in strip_fence_close (strip_fence_open jsonStr))"

text \<open>
  From the parsed response to the result. Reading a property of null throws a
  TypeError, which the catch block logs and throws again.
\<close>

definition map_response :: "jsval \<Rightarrow> string \<Rightarrow> failure + ClassificationResult" where
  "map_response result text =
     (if result = JNull \<or> result = JUndefined then Inl TypeError
      else
        (let noteType = THOUGHT;
             noteType = (if property result ''type'' = JStr ''article'' then ARTICLE else noteType);
             noteType = (if property result ''type'' = JStr ''chat'' then CHAT else noteType)
         in Inr \<lparr> res_type = noteType,
                  res_title = or_else (property result ''title'') (JStr ''Untitled Note''),
                  res_summary = or_else (property result ''summary'') (JStr ''No summary available.''),
                  res_sourceUrl = or_else (property result ''sourceUrl'') JUndefined,
                  res_content = or_else (property result ''content'') (JStr text) \<rparr>))"

definition classify_request :: "string \<Rightarrow> media option \<Rightarrow> request" where
  "classify_request text md =
     \<lparr> model = ''gemini-2.5-flash'',
       contents = Parts ((case md of None \<Rightarrow> [] | Some x \<Rightarrow> [InlineData (mimeType x) (data x)])
                          @ [TextPrompt text]) \<rparr>"

definition classifyContent ::
  "string option \<Rightarrow> (request \<Rightarrow> failure + string option) \<Rightarrow> (string \<Rightarrow> jsval option)
     \<Rightarrow> string \<Rightarrow> media option \<Rightarrow> failure + ClassificationResult" where
  "classifyContent apiKey generateContent JSON_parse text md =
     (case getClient apiKey of
        Inl e \<Rightarrow> Inl e
      | Inr ai \<Rightarrow>
          (case generateContent (classify_request text md) of
             Inl e \<Rightarrow> Inl e
           | Inr response_text \<Rightarrow>
               (case JSON_parse (response_json response_text) of
                  None \<Rightarrow> Inl SyntaxError
                | Some result \<Rightarrow> map_response result text)))"

record report_item =
  item_type :: NoteType
  item_title :: string
  item_content :: string
  item_summary :: string
  item_sourceUrl :: "string option"
  hasMedia :: bool
  date :: string

definition report_item_of :: "(int \<Rightarrow> string) \<Rightarrow> NoteItem \<Rightarrow> report_item" where
  "report_item_of toLocaleDateString item =
     \<lparr> item_type = note_type item, item_title = note_title item,
       item_content = note_content item, item_summary = note_summary item,
       item_sourceUrl = note_sourceUrl item, hasMedia = (note_media item \<noteq> None),
       date = toLocaleDateString (createdAt item) \<rparr>"

definition report_request ::
  "(int \<Rightarrow> string) \<Rightarrow> (report_item list \<Rightarrow> string) \<Rightarrow> NoteItem list \<Rightarrow> request" where
  "report_request toLocaleDateString JSON_stringify items =
     \<lparr> model = ''gemini-3-pro-preview'',
       contents = ReportPrompt (JSON_stringify (map (report_item_of toLocaleDateString) items)) \<rparr>"

text \<open>
  The items are mapped and serialised before the try block; \<open>toLocaleDateString\<close> and
  \<open>JSON.stringify\<close> return for every note of the declared type. Inside the try block
  an exception of the call is caught and answered with a fixed text.
\<close>

definition generateWeeklyReport ::
  "string option \<Rightarrow> (request \<Rightarrow> failure + string option) \<Rightarrow> (int \<Rightarrow> string)
     \<Rightarrow> (report_item list \<Rightarrow> string) \<Rightarrow> NoteItem list \<Rightarrow> failure + string" where
  "generateWeeklyReport apiKey generateContent toLocaleDateString JSON_stringify items =
     (case getClient apiKey of
        Inl e \<Rightarrow> Inl e
      | Inr ai \<Rightarrow>
          (case generateContent (report_request toLocaleDateString JSON_stringify items) of
             Inl e \<Rightarrow> Inr ''Failed to generate report. Please check your network or API quota.''
           | Inr response_text \<Rightarrow>
               Inr (if falsy response_text then ''Failed to generate report.''
                    else the response_text)))"

section \<open>The context payload of the voice session\<close>

definition newline :: string where
  "newline = [CHR 0x0A]"

text \<open>
  toUpperCase, on the unaccented Latin letters: the strings it is applied to are the
  values of the enum.
\<close>

definition upper_char :: "char \<Rightarrow> char" where
  "upper_char c =
     (case map_of (zip ''abcdefghijklmnopqrstuvwxyz'' ''ABCDEFGHIJKLMNOPQRSTUVWXYZ'') c of
        None \<Rightarrow> c
      | Some u \<Rightarrow> u)"

definition toUpperCase :: "string \<Rightarrow> string" where
  "toUpperCase t = map upper_char t"

fun join :: "string \<Rightarrow> string list \<Rightarrow> string" where
  "join sep [] = []"
| "join sep [x] = x"
| "join sep (x # y # ys) = x @ sep @ join sep (y # ys)"

definition slice0 :: "nat \<Rightarrow> 'a list \<Rightarrow> 'a list" where
  "slice0 n xs = take n xs"

definition context_line :: "NoteItem \<Rightarrow> string" where
  "context_line n =
     ''['' @ toUpperCase (NoteType_value (note_type n)) @ ''] '' @ note_title n @ '': ''
       @ note_summary n"

definition contextSummary :: "NoteItem list \<Rightarrow> string" where
  "contextSummary notes = join newline (map context_line (slice0 50 notes))"

definition instruction_head :: string where
  "instruction_head =
     ''You are my personal WeChat assistant. I have sent you various articles, thoughts, and chats this week. ''
     @ newline @
     ''      Your goal is to discuss these with me, help me reflect, or answer questions about them.''
     @ newline @ ''      '' @ newline @
     ''      Here is a summary of my recent content:'' @ newline @ ''      ''"

definition instruction_tail :: string where
  "instruction_tail =
     newline @ ''      '' @ newline @
     ''      Be concise, friendly, and conversational. Spoken language style.''"

definition systemInstruction :: "NoteItem list \<Rightarrow> string" where
  "systemInstruction notes = instruction_head @ contextSummary notes @ instruction_tail"

section \<open>The note store of the application (App)\<close>

text \<open>
  handleSend and handleSendAudio put a new note in front of the list:
  \<open>setNotes(prev => [newNote, ...prev])\<close>. So the list is ordered from the newest note
  to the oldest.
\<close>

definition addNote :: "NoteItem \<Rightarrow> NoteItem list \<Rightarrow> NoteItem list" where
  "addNote newNote prev = newNote # prev"

text \<open>The store after the notes \<open>ns\<close> were added one after another, the last one latest.\<close>

definition addNotes :: "NoteItem list \<Rightarrow> NoteItem list \<Rightarrow> NoteItem list" where
  "addNotes ns prev = foldl (\<lambda>st n. addNote n st) prev ns"

section \<open>Double precision arithmetic\<close>

text \<open>
  The numbers of the program are IEEE 754 doubles. A finite double is a real number,
  and the sum and the quotient of two doubles are the exact results rounded to the
  nearest double, ties to the even significand. \<open>round_double\<close> rounds to 53 significant
  bits, and to multiples of \<open>2 ^ -1074\<close> below \<open>2 ^ -1022\<close>. A result beyond the largest
  double, where the program gets Infinity, and NaN are outside these definitions; the
  one place where the program meets NaN, the mean of an empty block, is written out
  there.
\<close>

definition pow2 :: "int \<Rightarrow> real" where
  "pow2 e = (if 0 \<le> e then 2 ^ nat e else 1 / 2 ^ nat (- e))"

text \<open>The number of binary digits of a positive integer.\<close>

function bit_length :: "int \<Rightarrow> int" where
  "bit_length n = (if n \<le> 0 then 0 else bit_length (n div 2) + 1)"
  by pat_completeness auto
termination
  by (relation "measure nat") auto

text \<open>The exponent of a positive real \<open>x\<close>: the integer \<open>e\<close> with \<open>2 ^ e \<le> x < 2 ^ (e + 1)\<close>.\<close>

definition exponent :: "real \<Rightarrow> int" where
  "exponent x =
     (if 1 \<le> x then bit_length \<lfloor>x\<rfloor> - 1
      else (let k = bit_length \<lfloor>1 / x\<rfloor>
            in if x * pow2 (k - 1) = 1 then 1 - k else - k))"

definition round_half_even :: "real \<Rightarrow> int" where
  "round_half_even q =
     (let f = \<lfloor>q\<rfloor>; r = q - of_int f
      in if r < 1 / 2 then f else if 1 / 2 < r then f + 1 else if even f then f else f + 1)"

definition round_double :: "real \<Rightarrow> real" where
  "round_double x =
     (if x = 0 then 0
      else (let e = max (exponent \<bar>x\<bar>) (- 1022); u = pow2 (e - 52)
            in of_int (round_half_even (x / u)) * u))"

definition double_add :: "real \<Rightarrow> real \<Rightarrow> real" where
  "double_add x y = round_double (x + y)"

definition double_div :: "real \<Rightarrow> real \<Rightarrow> real" where
  "double_div x y = round_double (x / y)"

section \<open>The voice conversation dialog (VoiceChatModal)\<close>

text \<open>
  The component keeps its devices and its playback timeline in mutable refs and three
  flags and an error text in component state. The model is one record of all of them,
  passed through every callback and returned updated.

  A ref that holds a browser object or null is a flag: True when the ref is non-null.
  Points of time on the output clock, durations and sample values are doubles.

  A buffer source node is known by a number: the node made by the n-th call of
  createBufferSource is n, counted in \<open>created\<close>. The set \<open>sourcesRef\<close> is a list without
  repetitions in insertion order, which is the order a JavaScript Set iterates in.

  What the callbacks do to the browser and to the remote session is appended to
  \<open>effects\<close>, in program order.

  Two functions of the component wait in the middle of their bodies: the message handler
  for the decoder, connectToLiveAPI for the microphone. While one waits, other callbacks
  run. The record holds what waits: in \<open>decoding\<close> the messages whose handlers are
  suspended at the decoder, in \<open>micRequests\<close> the system instructions of the calls of
  connectToLiveAPI that are suspended at getUserMedia, both oldest first.
\<close>

datatype effect =
    ProcessorDisconnect
  | MicSourceDisconnect
  | StreamTracksStop
  | InputContextClose
  | OutputContextClose
  | BufferSourceConnect nat
  | AddEndedListener nat
  | SourceStart nat real real
  | SourceStop nat
  | SendRealtimeInput "real list"
  | LiveConnect string

text \<open>
  Of an inbound message the handler reads two things: the base64 text of the first part
  of the model turn, absent when any link of the optional chain is missing, and the
  interrupted flag.
\<close>

record message =
  audio :: "string option"
  interrupted :: bool

record modal =
  isConnected :: bool
  isSpeaking :: bool
  isAIResponding :: bool
  error :: "string option"
  inputAudioContextRef :: bool
  outputAudioContextRef :: bool
  streamRef :: bool
  processorRef :: bool
  sourceRef :: bool
  nextStartTimeRef :: real
  sourcesRef :: "nat list"
  sessionRef :: bool
  created :: nat
  effects :: "effect list"
  decoding :: "message list"
  micRequests :: "string list"

definition initial :: modal where
  "initial = \<lparr> isConnected = False, isSpeaking = False, isAIResponding = False,
     error = None, inputAudioContextRef = False, outputAudioContextRef = False,
     streamRef = False, processorRef = False, sourceRef = False,
     nextStartTimeRef = 0, sourcesRef = [], sessionRef = False, created = 0,
     effects = [], decoding = [], micRequests = [] \<rparr>"

subsection \<open>cleanupAudio\<close>

text \<open>
  Each guarded block of cleanupAudio releases one ref if it is set. The sources are
  stopped inside try/catch, so a failing stop is swallowed; then the set is cleared and
  the three flags are lowered. The cursor, the error text and the session ref are not
  touched, and nothing that waits is cancelled.
\<close>

definition release_processor :: "modal \<Rightarrow> modal" where
  "release_processor s =
     (if processorRef s
      then s\<lparr>effects := effects s @ [ProcessorDisconnect], processorRef := False\<rparr>
      else s)"

definition release_source :: "modal \<Rightarrow> modal" where
  "release_source s =
     (if sourceRef s
      then s\<lparr>effects := effects s @ [MicSourceDisconnect], sourceRef := False\<rparr>
      else s)"

definition release_stream :: "modal \<Rightarrow> modal" where
  "release_stream s =
     (if streamRef s
      then s\<lparr>effects := effects s @ [StreamTracksStop], streamRef := False\<rparr>
      else s)"

definition release_input :: "modal \<Rightarrow> modal" where
  "release_input s =
     (if inputAudioContextRef s
      then s\<lparr>effects := effects s @ [InputContextClose], inputAudioContextRef := False\<rparr>
      else s)"

definition release_output :: "modal \<Rightarrow> modal" where
  "release_output s =
     (if outputAudioContextRef s
      then s\<lparr>effects := effects s @ [OutputContextClose], outputAudioContextRef := False\<rparr>
      else s)"

definition stop_sources :: "modal \<Rightarrow> modal" where
  "stop_sources s =
     s\<lparr>effects := effects s @ map SourceStop (sourcesRef s), sourcesRef := []\<rparr>"

definition cleanupAudio :: "modal \<Rightarrow> modal" where
  "cleanupAudio s =
     (let s1 = release_processor s;
          s2 = release_source s1;
          s3 = release_stream s2;
          s4 = release_input s3;
          s5 = release_output s4;
          s6 = stop_sources s5
      in s6\<lparr>isConnected := False, isSpeaking := False, isAIResponding := False\<rparr>)"

subsection \<open>The inbound message handler\<close>

definition has_audio :: "message \<Rightarrow> bool" where
  "has_audio m = (case audio m of None \<Rightarrow> False | Some b \<Rightarrow> b \<noteq> [])"

text \<open>
  The handler of a message that carries audio runs in two parts. Up to the await of the
  decoder it raises the responding flag and moves the cursor up to the clock reading
  \<open>now\<close> (\<open>audio_arrived\<close>). After the decoder has returned a buffer of duration \<open>dur\<close> it
  makes a source node on the context it took before the await, connects it, registers
  the ended listener, starts the node at the cursor as it is then, adds the duration to
  the cursor and adds the node to the set (\<open>schedule_source\<close>).
\<close>

definition audio_arrived :: "real \<Rightarrow> modal \<Rightarrow> modal" where
  "audio_arrived now s =
     s\<lparr>isAIResponding := True, nextStartTimeRef := max (nextStartTimeRef s) now\<rparr>"

definition set_add :: "nat \<Rightarrow> nat list \<Rightarrow> nat list" where
  "set_add h hs = (if h \<in> set hs then hs else hs @ [h])"

definition schedule_source :: "real \<Rightarrow> modal \<Rightarrow> modal" where
  "schedule_source dur s =
     (let h = created s in
      s\<lparr>created := Suc h,
        effects := effects s @
          [BufferSourceConnect h, AddEndedListener h, SourceStart h (nextStartTimeRef s) dur],
        nextStartTimeRef := double_add (nextStartTimeRef s) dur,
        sourcesRef := set_add h (sourcesRef s)\<rparr>)"

text \<open>The interruption block: stop every source of the set, clear it, reset the cursor.\<close>

definition interrupt :: "modal \<Rightarrow> modal" where
  "interrupt s =
     s\<lparr>effects := effects s @ map SourceStop (sourcesRef s), sourcesRef := [],
       nextStartTimeRef := 0, isAIResponding := False\<rparr>"

definition handle_interruption :: "message \<Rightarrow> modal \<Rightarrow> modal" where
  "handle_interruption m s = (if interrupted m then interrupt s else s)"

text \<open>
  The call of the handler. With audio and an output context it runs up to the await and
  is suspended; otherwise nothing is awaited, and it runs through the interruption
  block to its end.
\<close>

definition onmessage_begin :: "real \<Rightarrow> message \<Rightarrow> modal \<Rightarrow> modal" where
  "onmessage_begin now m s =
     (if has_audio m \<and> outputAudioContextRef s
      then (audio_arrived now s)\<lparr>decoding := decoding s @ [m]\<rparr>
      else handle_interruption m s)"

text \<open>
  The handler is an async function: it either runs to its end or is rejected by an
  exception of the decoder, and either way the changes made so far stay.
\<close>

datatype settled = Fulfilled modal | Rejected modal

fun state_of :: "settled \<Rightarrow> modal" where
  "state_of (Fulfilled s) = s"
| "state_of (Rejected s) = s"

text \<open>
  The rest of the handler of message \<open>m\<close>, run when the decoder settles, in the state
  that the callbacks in between have left. The decoder (decodeAudioData after
  base64ToUint8Array, both of utils/audioUtils) is a parameter: it gives the duration of
  the decoded buffer, or None when it throws.
\<close>

definition onmessage_resume :: "(string \<Rightarrow> real option) \<Rightarrow> message \<Rightarrow> modal \<Rightarrow> settled" where
  "onmessage_resume decodeAudioData m s =
     (case decodeAudioData (the (audio m)) of
        None \<Rightarrow> Rejected s
      | Some dur \<Rightarrow> Fulfilled (handle_interruption m (schedule_source dur s)))"

text \<open>The ended listener of source \<open>h\<close>.\<close>

definition onended :: "nat \<Rightarrow> modal \<Rightarrow> modal" where
  "onended h s =
     (let hs = removeAll h (sourcesRef s) in
      s\<lparr>sourcesRef := hs,
        isAIResponding := (if length hs = 0 then False else isAIResponding s)\<rparr>)"

subsection \<open>Channel callbacks\<close>

definition onclose :: "modal \<Rightarrow> modal" where
  "onclose s = s\<lparr>isConnected := False\<rparr>"

definition onerror :: "modal \<Rightarrow> modal" where
  "onerror s = s\<lparr>error := Some ''Connection error.'', isConnected := False\<rparr>"

subsection \<open>Opening the session\<close>

text \<open>
  connectToLiveAPI clears the error text, checks the API key, builds the system
  instruction from the notes, makes the two audio contexts and asks for the microphone,
  where it is suspended (\<open>connect_begin\<close>). When getUserMedia settles it keeps the stream
  and opens the live session with the system instruction, or, when the microphone was
  refused, ends in the catch block (\<open>connect_resume\<close>). The catch block only sets the
  error text: what was made before the exception stays.
\<close>

definition connect_begin :: "string option \<Rightarrow> NoteItem list \<Rightarrow> modal \<Rightarrow> modal" where
  "connect_begin apiKey notes s =
     (let s0 = s\<lparr>error := None\<rparr> in
      if falsy apiKey
      then s0\<lparr>error := Some ''Failed to access microphone or connect.''\<rparr>
      else s0\<lparr>inputAudioContextRef := True, outputAudioContextRef := True,
              micRequests := micRequests s0 @ [systemInstruction notes]\<rparr>)"

definition connect_resume :: "bool \<Rightarrow> string \<Rightarrow> modal \<Rightarrow> modal" where
  "connect_resume micGranted instruction s =
     (if \<not> micGranted
      then s\<lparr>error := Some ''Failed to access microphone or connect.''\<rparr>
      else s\<lparr>streamRef := True,
             effects := effects s @ [LiveConnect instruction],
             sessionRef := True\<rparr>)"

definition onopen :: "modal \<Rightarrow> modal" where
  "onopen s =
     (let s1 = s\<lparr>isConnected := True\<rparr> in
      if \<not> inputAudioContextRef s1 \<or> \<not> streamRef s1 then s1
      else s1\<lparr>sourceRef := True, processorRef := True\<rparr>)"

subsection \<open>The capture tick\<close>

text \<open>
  The tick sums the absolute values of the block from left to right with reduce, each
  sum a double, divides by the block length and compares with the double written 0.01.
  For an empty block the quotient is NaN, and a comparison with NaN is false. The block
  is then handed to createBlob and sent.
\<close>

definition threshold :: real where
  "threshold = round_double (1 / 100)"

definition onaudioprocess :: "real list \<Rightarrow> modal \<Rightarrow> modal" where
  "onaudioprocess inputData s =
     (let sum = foldl (\<lambda>a b. double_add a \<bar>b\<bar>) 0 inputData;
          avg = double_div sum (real (length inputData));
          speaking = (if length inputData = 0 then False else avg > threshold)
      in s\<lparr>isSpeaking := speaking, effects := effects s @ [SendRealtimeInput inputData]\<rparr>)"

subsection \<open>Sessions as runs of callbacks\<close>

text \<open>
  The browser calls the callbacks one after another, in any order. \<open>OnDecoded i\<close> is the
  decoder settling for the i-th suspended handler, \<open>OnUserMedia i granted\<close> is
  getUserMedia settling for the i-th suspended call of connectToLiveAPI. The ended
  listener of a source exists from the moment the source is made. \<open>Dismiss\<close> is the effect
  hook running cleanupAudio when the dialog is closed or unmounted.
\<close>

datatype event =
    Connect "string option" "NoteItem list"
  | OnUserMedia nat bool
  | OnOpen
  | OnAudioProcess "real list"
  | OnMessage real message
  | OnDecoded nat
  | OnEnded nat
  | OnClose
  | OnError
  | Dismiss

definition without :: "nat \<Rightarrow> 'a list \<Rightarrow> 'a list" where
  "without i xs = take i xs @ drop (Suc i) xs"

fun step :: "(string \<Rightarrow> real option) \<Rightarrow> event \<Rightarrow> modal \<Rightarrow> modal" where
  "step dec (Connect apiKey notes) s = connect_begin apiKey notes s"
| "step dec (OnUserMedia i granted) s =
     (if i < length (micRequests s)
      then connect_resume granted (micRequests s ! i)
             (s\<lparr>micRequests := without i (micRequests s)\<rparr>)
      else s)"
| "step dec OnOpen s = onopen s"
| "step dec (OnAudioProcess inputData) s = onaudioprocess inputData s"
| "step dec (OnMessage now m) s = onmessage_begin now m s"
| "step dec (OnDecoded i) s =
     (if i < length (decoding s)
      then state_of (onmessage_resume dec (decoding s ! i)
             (s\<lparr>decoding := without i (decoding s)\<rparr>))
      else s)"
| "step dec (OnEnded h) s = (if h < created s then onended h s else s)"
| "step dec OnClose s = onclose s"
| "step dec OnError s = onerror s"
| "step dec Dismiss s = cleanupAudio s"

fun run :: "(string \<Rightarrow> real option) \<Rightarrow> event list \<Rightarrow> modal \<Rightarrow> modal" where
  "run dec [] s = s"
| "run dec (e # es) s = run dec es (step dec e s)"

text \<open>The start calls among the effects: when each source was started, and its duration.\<close>

fun scheduled :: "effect list \<Rightarrow> (real \<times> real) list" where
  "scheduled [] = []"
| "scheduled (SourceStart h t d # es) = (t, d) # scheduled es"
| "scheduled (e # es) = scheduled es"

section \<open>The scheduler as the specification words it\<close>

text \<open>
  These definitions follow the words of the specification, to be compared with the
  handler above. A chunk is a pair of the clock reading at its arrival and its
  duration: it starts at the maximum of the clock and the cursor, and the cursor moves
  to its end, which the specification takes as the exact sum.
\<close>

fun timeline :: "real \<Rightarrow> (real \<times> real) list \<Rightarrow> (real \<times> real) list" where
  "timeline c [] = []"
| "timeline c ((now, d) # r) = (max now c, d) # timeline (max now c + d) r"

text \<open>The same timeline with the cursor moved by the sum of doubles.\<close>

fun double_timeline :: "real \<Rightarrow> (real \<times> real) list \<Rightarrow> (real \<times> real) list" where
  "double_timeline c [] = []"
| "double_timeline c ((now, d) # r) = (max now c, d) # double_timeline (double_add (max now c) d) r"

fun cursor_after :: "real \<Rightarrow> (real \<times> real) list \<Rightarrow> real" where
  "cursor_after c [] = c"
| "cursor_after c ((now, d) # r) = cursor_after (double_add (max now c) d) r"

text \<open>The indicator agrees with the set: it is on exactly when a source is active.\<close>

definition indicator_matches :: "modal \<Rightarrow> bool" where
  "indicator_matches s = (isAIResponding s = (sourcesRef s \<noteq> []))"

text \<open>The mean absolute amplitude of a block, as a real number.\<close>

definition mean_abs :: "real list \<Rightarrow> real" where
  "mean_abs xs = (\<Sum>x\<leftarrow>xs. \<bar>x\<bar>) / real (length xs)"

section \<open>Messages and sessions used in the statements\<close>

text \<open>
  A message that carries one audio chunk and no interruption. In \<open>chunk_events\<close> each
  chunk of a run is handled to its end before the next callback: the decoder settles
  right after the arrival.
\<close>

definition chunk_message :: "string \<Rightarrow> message" where
  "chunk_message b = \<lparr>audio = Some b, interrupted = False\<rparr>"

definition chunk_events :: "(real \<times> string) list \<Rightarrow> event list" where
  "chunk_events cs = concat (map (\<lambda>(now, b). [OnMessage now (chunk_message b), OnDecoded 0]) cs)"

text \<open>A message that carries an audio chunk together with the interruption flag.\<close>

definition both_message :: "string \<Rightarrow> message" where
  "both_message b = \<lparr>audio = Some b, interrupted = True\<rparr>"

text \<open>A message that carries the interruption flag alone.\<close>

definition interruption_message :: message where
  "interruption_message = \<lparr>audio = None, interrupted = True\<rparr>"

text \<open>The handles on which an ended listener was registered, in order.\<close>

fun listened :: "effect list \<Rightarrow> nat list" where
  "listened [] = []"
| "listened (AddEndedListener h # es) = h # listened es"
| "listened (e # es) = listened es"

text \<open>Whether the decoder succeeds on the audio of an event, if it has any.\<close>

fun decodes :: "(string \<Rightarrow> real option) \<Rightarrow> event \<Rightarrow> bool" where
  "decodes dec (OnMessage now m) = (case audio m of None \<Rightarrow> True | Some b \<Rightarrow> dec b \<noteq> None)"
| "decodes dec e = True"

fun is_connect :: "event \<Rightarrow> bool" where
  "is_connect (Connect apiKey notes) = True"
| "is_connect e = False"

text \<open>
  A callback with nothing running during its wait: the decoder settles right after the
  message has arrived, before the next callback.
\<close>

fun sequential :: "event \<Rightarrow> event list" where
  "sequential (OnMessage now m) = [OnMessage now m, OnDecoded 0]"
| "sequential (OnDecoded i) = []"
| "sequential e = [e]"

text \<open>
  The doubles written 0.1 and 0.2, and the double that the program writes
  0.30000000000000004.
\<close>

definition tenth :: real where
  "tenth = 3602879701896397 / 2 ^ 55"

definition fifth :: real where
  "fifth = 3602879701896397 / 2 ^ 54"

definition above_three_tenths :: real where
  "above_three_tenths = 5404319552844596 / 2 ^ 54"

text \<open>A decoder for the examples.\<close>

definition demo_decoder :: "string \<Rightarrow> real option" where
  "demo_decoder = map_of [(''AAAA'', 5), (''BBBB'', 2), (''CCCC'', 1), (''DDDD'', 1 / 2),
     (''EEEE'', tenth), (''FFFF'', fifth)]"

text \<open>The dialog connected and open, with nothing played yet.\<close>

definition connected :: modal where
  "connected = run demo_decoder [Connect (Some ''key'') [], OnUserMedia 0 True, OnOpen] initial"

text \<open>
  A session that is playing: in the connected dialog one chunk of five seconds arrived
  at clock zero and was decoded.
\<close>

definition playing :: modal where
  "playing = run demo_decoder [OnMessage 0 (chunk_message ''AAAA''), OnDecoded 0] connected"

text \<open>Three chunks that arrive in time, and three of which two last 0.1 and 0.2 seconds.\<close>

definition three :: "(real \<times> string) list" where
  "three = [(0, ''CCCC''), (1 / 5, ''DDDD''), (9 / 10, ''CCCC'')]"

definition tenths :: "(real \<times> string) list" where
  "tenths = [(0, ''EEEE''), (0, ''FFFF''), (0, ''CCCC'')]"

text \<open>A whole session with one chunk of one second, played to its end.\<close>

definition one_chunk_session :: "event list" where
  "one_chunk_session =
     [Connect (Some ''key'') [], OnUserMedia 0 True, OnOpen,
      OnMessage 0 (chunk_message ''CCCC''), OnEnded 0]"

text \<open>
  Two blocks of the same eight samples, each a single precision number: the three parts
  of the double written 0.08, four times a quarter of its last place, and zero. In the
  first block the small samples come last, in the second they come first.
\<close>

definition small_last :: "real list" where
  "small_last =
     [5368709 / 2 ^ 26, 4026531 / 2 ^ 51, 27 / 2 ^ 56,
      1 / 2 ^ 58, 1 / 2 ^ 58, 1 / 2 ^ 58, 1 / 2 ^ 58, 0]"

definition small_first :: "real list" where
  "small_first =
     [1 / 2 ^ 58, 1 / 2 ^ 58, 1 / 2 ^ 58, 1 / 2 ^ 58,
      5368709 / 2 ^ 26, 4026531 / 2 ^ 51, 27 / 2 ^ 56, 0]"

text \<open>What the context payload takes of a note: its type, its title and its summary.\<close>

definition digest :: "NoteItem \<Rightarrow> NoteType \<times> string \<times> string" where
  "digest n = (note_type n, note_title n, note_summary n)"

text \<open>Two notes, for a store of a thousand notes.\<close>

definition sample_note :: NoteItem where
  "sample_note = \<lparr> note_id = ''1'', note_content = ''a long text'', note_type = ARTICLE,
     note_title = ''Title'', note_summary = ''Sum.'', createdAt = 0,
     note_sourceUrl = None, note_media = None \<rparr>"

definition newer_note :: NoteItem where
  "newer_note = \<lparr> note_id = ''2'', note_content = ''something else'', note_type = THOUGHT,
     note_title = ''Idea'', note_summary = ''New.'', createdAt = 1,
     note_sourceUrl = None, note_media = None \<rparr>"

text \<open>
  Sample surroundings of the two service functions: an answer wrapped in a code fence
  whose type is none of the three categories, a parser that knows this answer, a call
  that throws, a call that answers with an empty text, a date format and a serialiser.
\<close>

definition fenced_reply :: string where
  "fenced_reply = ''```json'' @ newline @ ''{\"type\": \"video\"}'' @ newline @ ''```''"

definition sample_parse :: "string \<Rightarrow> jsval option" where
  "sample_parse = map_of [(''{\"type\": \"video\"}'', JObj [(''type'', JStr ''video'')]),
                           (''{}'', JObj [])]"

definition sample_generate :: "request \<Rightarrow> failure + string option" where
  "sample_generate = (\<lambda>req. Inr (Some fenced_reply))"

definition failing_generate :: "request \<Rightarrow> failure + string option" where
  "failing_generate = (\<lambda>req. Inl (GenerateContentError ''quota''))"

definition empty_generate :: "request \<Rightarrow> failure + string option" where
  "empty_generate = (\<lambda>req. Inr (Some []))"

definition sample_date :: "int \<Rightarrow> string" where
  "sample_date = (\<lambda>ms. ''1/1/1970'')"

definition sample_stringify :: "report_item list \<Rightarrow> string" where
  "sample_stringify = (\<lambda>xs. concat (map item_title xs))"

section \<open>Idempotence of teardown and interruption\<close>

lemma cleanupAudio_refs:
  "\<not> processorRef (cleanupAudio s)" "\<not> sourceRef (cleanupAudio s)"
  "\<not> streamRef (cleanupAudio s)" "\<not> inputAudioContextRef (cleanupAudio s)"
  "\<not> outputAudioContextRef (cleanupAudio s)" "sourcesRef (cleanupAudio s) = []"
  "\<not> isConnected (cleanupAudio s)" "\<not> isSpeaking (cleanupAudio s)"
  "\<not> isAIResponding (cleanupAudio s)"
  by (simp_all add: cleanupAudio_def Let_def release_processor_def release_source_def
      release_stream_def release_input_def release_output_def stop_sources_def)

lemma cleanupAudio_released:
  assumes "\<not> processorRef s" "\<not> sourceRef s" "\<not> streamRef s"
    "\<not> inputAudioContextRef s" "\<not> outputAudioContextRef s" "sourcesRef s = []"
    "\<not> isConnected s" "\<not> isSpeaking s" "\<not> isAIResponding s"
  shows "cleanupAudio s = s"
  using assms
  by (simp add: cleanupAudio_def Let_def release_processor_def release_source_def
      release_stream_def release_input_def release_output_def stop_sources_def)

text \<open>
  C7. Teardown and interruption are idempotent: in every state, running cleanupAudio
  twice gives the state that running it once gives, with no further device call, and
  the same holds for the interruption block; in the initial state, where nothing was
  started, both leave the state as it is.
\<close>

theorem teardown_interrupt_idempotent:
  "cleanupAudio (cleanupAudio s) = cleanupAudio s
   \<and> interrupt (interrupt s) = interrupt s
   \<and> sourcesRef (interrupt s) = [] \<and> nextStartTimeRef (interrupt s) = 0
   \<and> cleanupAudio initial = initial
   \<and> interrupt initial = initial"
proof -
  have "cleanupAudio (cleanupAudio s) = cleanupAudio s"
    by (rule cleanupAudio_released) (rule cleanupAudio_refs)+
  moreover have "interrupt (interrupt s) = interrupt s"
    by (simp add: interrupt_def)
  moreover have "cleanupAudio initial = initial"
    by (rule cleanupAudio_released) (simp_all add: initial_def)
  moreover have "interrupt initial = initial"
    by (simp add: interrupt_def initial_def)
  ultimately show ?thesis
    by (simp add: interrupt_def)
qed

section \<open>The parts of the handlers\<close>

lemma scheduled_append: "scheduled (xs @ ys) = scheduled xs @ scheduled ys"
  by (induction xs rule: scheduled.induct) simp_all

lemma listened_append: "listened (xs @ ys) = listened xs @ listened ys"
  by (induction xs rule: listened.induct) simp_all

lemma scheduled_stops: "scheduled (map SourceStop hs) = []"
  by (induction hs) simp_all

lemma set_set_add: "set (set_add h hs) = insert h (set hs)"
  by (auto simp add: set_add_def)

lemma set_add_not_empty: "set_add h hs \<noteq> []"
  by (auto simp add: set_add_def)

lemma without_single: "without 0 [x] = []"
  by (simp add: without_def)

lemma audio_arrived_fields:
  "isAIResponding (audio_arrived now s)" "sourcesRef (audio_arrived now s) = sourcesRef s"
  "created (audio_arrived now s) = created s"
  "outputAudioContextRef (audio_arrived now s) = outputAudioContextRef s"
  "nextStartTimeRef (audio_arrived now s) = max now (nextStartTimeRef s)"
  "effects (audio_arrived now s) = effects s"
  "decoding (audio_arrived now s) = decoding s"
  by (simp_all add: audio_arrived_def max.commute)

lemma schedule_source_fields:
  "isAIResponding (schedule_source d s) = isAIResponding s"
  "sourcesRef (schedule_source d s) = set_add (created s) (sourcesRef s)"
  "outputAudioContextRef (schedule_source d s) = outputAudioContextRef s"
  "nextStartTimeRef (schedule_source d s) = double_add (nextStartTimeRef s) d"
  "created (schedule_source d s) = Suc (created s)"
  "effects (schedule_source d s) = effects s @
     [BufferSourceConnect (created s), AddEndedListener (created s),
      SourceStart (created s) (nextStartTimeRef s) d]"
  "decoding (schedule_source d s) = decoding s"
  by (simp_all add: schedule_source_def Let_def)

lemma interrupt_fields:
  "sourcesRef (interrupt s) = []" "nextStartTimeRef (interrupt s) = 0"
  "\<not> isAIResponding (interrupt s)"
  "outputAudioContextRef (interrupt s) = outputAudioContextRef s"
  "created (interrupt s) = created s"
  "effects (interrupt s) = effects s @ map SourceStop (sourcesRef s)"
  "decoding (interrupt s) = decoding s"
  by (simp_all add: interrupt_def)

text \<open>A chunk arrives: the handler is suspended at the decoder.\<close>

lemma arrive_chunk:
  assumes "outputAudioContextRef s" "has_audio m"
  shows "step dec (OnMessage now m) s = (audio_arrived now s)\<lparr>decoding := decoding s @ [m]\<rparr>"
  using assms by (simp add: onmessage_begin_def)

text \<open>The decoder settles for a chunk without the interruption flag.\<close>

lemma decoded_chunk:
  assumes "i < length (decoding s)" "decoding s ! i = m" "audio m = Some b" "dec b = Some d"
    "\<not> interrupted m"
  shows "step dec (OnDecoded i) s = schedule_source d (s\<lparr>decoding := without i (decoding s)\<rparr>)"
  using assms by (simp add: onmessage_resume_def handle_interruption_def)

text \<open>The decoder settles for a chunk with the interruption flag.\<close>

lemma decoded_both:
  assumes "i < length (decoding s)" "decoding s ! i = m" "audio m = Some b" "dec b = Some d"
    "interrupted m"
  shows "step dec (OnDecoded i) s
           = interrupt (schedule_source d (s\<lparr>decoding := without i (decoding s)\<rparr>))"
  using assms by (simp add: onmessage_resume_def handle_interruption_def)

text \<open>A chunk handled to its end with no callback during the decode.\<close>

lemma handled_chunk:
  assumes "outputAudioContextRef s" "decoding s = []" "b \<noteq> []" "dec b = Some d"
  shows "run dec [OnMessage now (chunk_message b), OnDecoded 0] s
           = schedule_source d (audio_arrived now s)"
proof -
  have m: "has_audio (chunk_message b)" "audio (chunk_message b) = Some b"
    "\<not> interrupted (chunk_message b)"
    using assms(3) by (simp_all add: has_audio_def chunk_message_def)
  let ?s1 = "(audio_arrived now s)\<lparr>decoding := decoding s @ [chunk_message b]\<rparr>"
  have a: "step dec (OnMessage now (chunk_message b)) s = ?s1"
    using assms(1) m(1) by (rule arrive_chunk)
  have d: "step dec (OnDecoded 0) ?s1
      = schedule_source d (?s1\<lparr>decoding := without 0 (decoding ?s1)\<rparr>)"
    by (rule decoded_chunk[where m = "chunk_message b" and b = b])
      (simp_all add: assms(2,4) m)
  have "?s1\<lparr>decoding := without 0 (decoding ?s1)\<rparr> = audio_arrived now s"
    using assms(2) by (simp add: without_single audio_arrived_def)
  with a d show ?thesis
    by (simp del: step.simps)
qed

lemma handled_chunk_fields:
  "outputAudioContextRef (schedule_source d (audio_arrived now s)) = outputAudioContextRef s"
  "decoding (schedule_source d (audio_arrived now s)) = decoding s"
  "nextStartTimeRef (schedule_source d (audio_arrived now s))
     = double_add (max now (nextStartTimeRef s)) d"
  "created (schedule_source d (audio_arrived now s)) = Suc (created s)"
  "effects (schedule_source d (audio_arrived now s)) = effects s @
     [BufferSourceConnect (created s), AddEndedListener (created s),
      SourceStart (created s) (max now (nextStartTimeRef s)) d]"
  "sourcesRef (schedule_source d (audio_arrived now s)) = set_add (created s) (sourcesRef s)"
  "isAIResponding (schedule_source d (audio_arrived now s))"
  by (simp_all add: schedule_source_fields audio_arrived_fields)

section \<open>The sample sessions\<close>

lemma double_values:
  "double_add 0 5 = 5" "double_add 5 2 = 7" "double_add 0 1 = 1" "double_add 1 (1 / 2) = 3 / 2"
  "double_add (3 / 2) 1 = 5 / 2" "double_add 7 2 = 9" "double_add 0 2 = 2" "double_add 2 1 = 3"
  "double_add 6 2 = 8"
  by (simp_all only: double_add_def) code_simp+

lemma connected_fields:
  "outputAudioContextRef connected" "inputAudioContextRef connected" "streamRef connected"
  "processorRef connected" "sourceRef connected" "isConnected connected"
  "\<not> isAIResponding connected" "sourcesRef connected = []" "nextStartTimeRef connected = 0"
  "created connected = 0" "decoding connected = []" "error connected = None"
  "effects connected = [LiveConnect (systemInstruction [])]"
  by (simp_all add: connected_def connect_begin_def connect_resume_def onopen_def falsy_def
      initial_def Let_def without_def)

lemma playing_eq: "playing = schedule_source 5 (audio_arrived 0 connected)"
  unfolding playing_def
  by (rule handled_chunk) (simp_all add: connected_fields demo_decoder_def)

lemma playing_fields:
  "outputAudioContextRef playing" "inputAudioContextRef playing" "streamRef playing"
  "processorRef playing" "sourceRef playing" "isConnected playing" "isAIResponding playing"
  "sourcesRef playing = [0]" "nextStartTimeRef playing = 5" "created playing = 1"
  "scheduled (effects playing) = [(0, 5)]" "error playing = None" "decoding playing = []"
  "effects playing = [LiveConnect (systemInstruction []), BufferSourceConnect 0,
      AddEndedListener 0, SourceStart 0 0 5]"
  by (simp_all add: playing_eq schedule_source_def audio_arrived_def Let_def connected_fields
      set_add_def double_values)

section \<open>Scheduling of chunks\<close>

lemma insert_interval: "insert c A \<union> {Suc c ..< Suc c + n} = A \<union> {c ..< c + Suc n}"
  by auto

lemma double_timeline_length: "length (double_timeline c as) = length as"
  by (induction c as rule: double_timeline.induct) simp_all

lemma double_timeline_no_overlap:
  "Suc k < length as \<Longrightarrow>
     double_add (fst (double_timeline c as ! k)) (snd (double_timeline c as ! k))
       \<le> fst (double_timeline c as ! Suc k)"
proof (induction c as arbitrary: k rule: double_timeline.induct)
  case (1 c)
  then show ?case by simp
next
  case (2 c now d r)
  show ?case
  proof (cases k)
    case 0
    with 2 obtain now' d' r' where "r = (now', d') # r'"
      by (cases r) auto
    with 0 show ?thesis by simp
  next
    case (Suc j)
    with 2 show ?thesis by simp
  qed
qed

lemma double_timeline_no_gap:
  "Suc k < length as \<Longrightarrow>
     fst (as ! Suc k)
       \<le> double_add (fst (double_timeline c as ! k)) (snd (double_timeline c as ! k)) \<Longrightarrow>
     fst (double_timeline c as ! Suc k)
       = double_add (fst (double_timeline c as ! k)) (snd (double_timeline c as ! k))"
proof (induction c as arbitrary: k rule: double_timeline.induct)
  case (1 c)
  then show ?case by simp
next
  case (2 c now d r)
  show ?case
  proof (cases k)
    case 0
    with 2 obtain now' d' r' where "r = (now', d') # r'"
      by (cases r) auto
    with 0 "2.prems" show ?thesis by simp
  next
    case (Suc j)
    with 2 show ?thesis by simp
  qed
qed

lemma run_append: "run dec (es @ fs) s = run dec fs (run dec es s)"
  by (induction es arbitrary: s) simp_all

lemma run_chunks:
  assumes "list_all2 (\<lambda>(now, b) d. b \<noteq> [] \<and> dec b = Some d) cs ds"
    "outputAudioContextRef s" "decoding s = []"
  shows "scheduled (effects (run dec (chunk_events cs) s)) =
           scheduled (effects s) @ double_timeline (nextStartTimeRef s) (zip (map fst cs) ds)
       \<and> nextStartTimeRef (run dec (chunk_events cs) s) =
           cursor_after (nextStartTimeRef s) (zip (map fst cs) ds)
       \<and> outputAudioContextRef (run dec (chunk_events cs) s)
       \<and> decoding (run dec (chunk_events cs) s) = []
       \<and> created (run dec (chunk_events cs) s) = created s + length cs
       \<and> listened (effects (run dec (chunk_events cs) s)) =
           listened (effects s) @ [created s ..< created s + length cs]
       \<and> set (sourcesRef (run dec (chunk_events cs) s)) =
           set (sourcesRef s) \<union> {created s ..< created s + length cs}
       \<and> (cs \<noteq> [] \<longrightarrow> isAIResponding (run dec (chunk_events cs) s))"
  using assms
proof (induction cs ds arbitrary: s rule: list_all2_induct)
  case Nil
  then show ?case by (simp add: chunk_events_def)
next
  case (Cons c cs d ds)
  obtain now b where c: "c = (now, b)" by (cases c)
  let ?s1 = "schedule_source d (audio_arrived now s)"
  from Cons.hyps(1) c have b: "b \<noteq> []" "dec b = Some d" by simp_all
  have st: "run dec [OnMessage now (chunk_message b), OnDecoded 0] s = ?s1"
    using Cons.prems b by (rule handled_chunk)
  have ctx1: "outputAudioContextRef ?s1" and dec1: "decoding ?s1 = []"
    using Cons.prems by (simp_all add: handled_chunk_fields)
  note IH = Cons.IH[OF ctx1 dec1]
  have "chunk_events (c # cs) = [OnMessage now (chunk_message b), OnDecoded 0] @ chunk_events cs"
    by (simp add: chunk_events_def c)
  then have r: "run dec (chunk_events (c # cs)) s = run dec (chunk_events cs) ?s1"
    using st by (simp only: run_append)
  have resp: "isAIResponding (run dec (chunk_events cs) ?s1)"
  proof (cases "cs = []")
    case True
    then show ?thesis by (simp add: chunk_events_def handled_chunk_fields)
  next
    case False
    with IH show ?thesis by simp
  qed
  have up: "created s # [Suc (created s) ..< Suc (created s + length cs)]
              = [created s ..< Suc (created s + length cs)]"
    by (rule upt_conv_Cons[symmetric]) simp
  show ?case
    unfolding r using IH resp up
    using insert_interval[of "created s" "set (sourcesRef s)" "length cs"]
    by (simp add: c handled_chunk_fields scheduled_append listened_append set_set_add)
qed

lemma onended_removes: "h \<notin> set (sourcesRef (onended h s))"
  by (simp add: onended_def Let_def)

lemma arrive_chunk_fields:
  assumes "outputAudioContextRef s" "b \<noteq> []"
  shows "nextStartTimeRef (step dec (OnMessage now (chunk_message b)) s)
           = max now (nextStartTimeRef s)"
    "decoding (step dec (OnMessage now (chunk_message b)) s) = decoding s @ [chunk_message b]"
    "effects (step dec (OnMessage now (chunk_message b)) s) = effects s"
    "sourcesRef (step dec (OnMessage now (chunk_message b)) s) = sourcesRef s"
    "isAIResponding (step dec (OnMessage now (chunk_message b)) s)"
proof -
  have "has_audio (chunk_message b)"
    using assms(2) by (simp add: has_audio_def chunk_message_def)
  with assms(1) have "step dec (OnMessage now (chunk_message b)) s
      = (audio_arrived now s)\<lparr>decoding := decoding s @ [chunk_message b]\<rparr>"
    by (rule arrive_chunk)
  then show "nextStartTimeRef (step dec (OnMessage now (chunk_message b)) s)
           = max now (nextStartTimeRef s)"
    "decoding (step dec (OnMessage now (chunk_message b)) s) = decoding s @ [chunk_message b]"
    "effects (step dec (OnMessage now (chunk_message b)) s) = effects s"
    "sourcesRef (step dec (OnMessage now (chunk_message b)) s) = sourcesRef s"
    "isAIResponding (step dec (OnMessage now (chunk_message b)) s)"
    by (simp_all add: audio_arrived_fields del: step.simps)
qed

lemma decoded_chunk_fields:
  assumes "i < length (decoding s)" "decoding s ! i = chunk_message b" "dec b = Some d"
  shows "effects (step dec (OnDecoded i) s) = effects s @
           [BufferSourceConnect (created s), AddEndedListener (created s),
            SourceStart (created s) (nextStartTimeRef s) d]"
    "nextStartTimeRef (step dec (OnDecoded i) s) = double_add (nextStartTimeRef s) d"
    "sourcesRef (step dec (OnDecoded i) s) = set_add (created s) (sourcesRef s)"
    "isAIResponding (step dec (OnDecoded i) s) = isAIResponding s"
    "decoding (step dec (OnDecoded i) s) = without i (decoding s)"
proof -
  have "step dec (OnDecoded i) s = schedule_source d (s\<lparr>decoding := without i (decoding s)\<rparr>)"
    using assms(1,2) _ assms(3)
    by (rule decoded_chunk) (simp_all add: chunk_message_def)
  then show "effects (step dec (OnDecoded i) s) = effects s @
           [BufferSourceConnect (created s), AddEndedListener (created s),
            SourceStart (created s) (nextStartTimeRef s) d]"
    "nextStartTimeRef (step dec (OnDecoded i) s) = double_add (nextStartTimeRef s) d"
    "sourcesRef (step dec (OnDecoded i) s) = set_add (created s) (sourcesRef s)"
    "isAIResponding (step dec (OnDecoded i) s) = isAIResponding s"
    "decoding (step dec (OnDecoded i) s) = without i (decoding s)"
    by (simp_all add: schedule_source_fields del: step.simps)
qed

text \<open>
  C1 as amended. A chunk is the audio of a message without the interruption flag. When
  a non-empty chunk arrives while the output context exists, the handler raises the
  cursor to the maximum of the clock reading and the cursor, and waits for the decoder.
  When the decoding of a chunk ends with a buffer, the handler starts the chunk at the
  cursor as it is then, moves the cursor to the double sum of that start time and the
  duration, adds the handle to the active set and registers an ended listener, which
  removes the handle. From a state with an output context and no handler waiting, for
  non-empty chunks that decode and are each handled to the end before the next
  callback, the start calls are those of the timeline with double sums: a chunk starts
  at the maximum of its clock reading and the cursor, never before the cursor that the
  chunk before it left, and exactly at that cursor whenever it arrives no later than
  it. That cursor is the sum of the start and the duration of the chunk before, rounded
  to a double.
\<close>

theorem enqueue_gapless:
  assumes "outputAudioContextRef s" and "decoding s = []"
    and "list_all2 (\<lambda>(now, b) d. b \<noteq> [] \<and> dec b = Some d) cs ds"
  shows "scheduled (effects (run dec (chunk_events cs) s)) =
           scheduled (effects s) @ double_timeline (nextStartTimeRef s) (zip (map fst cs) ds)
       \<and> nextStartTimeRef (run dec (chunk_events cs) s) =
           cursor_after (nextStartTimeRef s) (zip (map fst cs) ds)
       \<and> set (sourcesRef (run dec (chunk_events cs) s)) =
           set (sourcesRef s) \<union> {created s ..< created s + length cs}
       \<and> listened (effects (run dec (chunk_events cs) s)) =
           listened (effects s) @ [created s ..< created s + length cs]
       \<and> (\<forall>h s'. h \<notin> set (sourcesRef (onended h s')))
       \<and> (\<forall>k. Suc k < length cs \<longrightarrow>
            double_add (fst (double_timeline (nextStartTimeRef s) (zip (map fst cs) ds) ! k))
              (snd (double_timeline (nextStartTimeRef s) (zip (map fst cs) ds) ! k))
            \<le> fst (double_timeline (nextStartTimeRef s) (zip (map fst cs) ds) ! Suc k))
       \<and> (\<forall>k. Suc k < length cs \<longrightarrow>
            fst (cs ! Suc k)
              \<le> double_add (fst (double_timeline (nextStartTimeRef s) (zip (map fst cs) ds) ! k))
                  (snd (double_timeline (nextStartTimeRef s) (zip (map fst cs) ds) ! k)) \<longrightarrow>
            fst (double_timeline (nextStartTimeRef s) (zip (map fst cs) ds) ! Suc k)
              = double_add (fst (double_timeline (nextStartTimeRef s) (zip (map fst cs) ds) ! k))
                  (snd (double_timeline (nextStartTimeRef s) (zip (map fst cs) ds) ! k)))
       \<and> (outputAudioContextRef s2 \<and> b \<noteq> [] \<longrightarrow>
            nextStartTimeRef (step dec (OnMessage now (chunk_message b)) s2)
              = max now (nextStartTimeRef s2)
            \<and> effects (step dec (OnMessage now (chunk_message b)) s2) = effects s2
            \<and> sourcesRef (step dec (OnMessage now (chunk_message b)) s2) = sourcesRef s2
            \<and> decoding (step dec (OnMessage now (chunk_message b)) s2)
                = decoding s2 @ [chunk_message b])
       \<and> (i < length (decoding s2) \<and> decoding s2 ! i = chunk_message b \<and> dec b = Some d \<longrightarrow>
            effects (step dec (OnDecoded i) s2) = effects s2 @
              [BufferSourceConnect (created s2), AddEndedListener (created s2),
               SourceStart (created s2) (nextStartTimeRef s2) d]
            \<and> nextStartTimeRef (step dec (OnDecoded i) s2) = double_add (nextStartTimeRef s2) d
            \<and> sourcesRef (step dec (OnDecoded i) s2) = set_add (created s2) (sourcesRef s2))"
proof -
  let ?as = "zip (map fst cs) ds"
  let ?tl = "double_timeline (nextStartTimeRef s) ?as"
  have len: "length ds = length cs"
    using assms(3) by (simp add: list_all2_lengthD)
  then have las: "length ?as = length cs" by simp
  have fst_as: "fst (?as ! Suc k) = fst (cs ! Suc k)" if "Suc k < length cs" for k
    using that len by simp
  note R = run_chunks[OF assms(3) assms(1) assms(2)]
  have overlap: "\<forall>k. Suc k < length cs \<longrightarrow>
      double_add (fst (?tl ! k)) (snd (?tl ! k)) \<le> fst (?tl ! Suc k)"
    using double_timeline_no_overlap[of _ ?as "nextStartTimeRef s"] las by simp
  have gap: "\<forall>k. Suc k < length cs \<longrightarrow>
      fst (cs ! Suc k) \<le> double_add (fst (?tl ! k)) (snd (?tl ! k)) \<longrightarrow>
      fst (?tl ! Suc k) = double_add (fst (?tl ! k)) (snd (?tl ! k))"
  proof (intro allI impI)
    fix k
    assume k: "Suc k < length cs"
      and le: "fst (cs ! Suc k) \<le> double_add (fst (?tl ! k)) (snd (?tl ! k))"
    from k las have "Suc k < length ?as" by simp
    moreover from le fst_as[OF k]
    have "fst (?as ! Suc k) \<le> double_add (fst (?tl ! k)) (snd (?tl ! k))" by simp
    ultimately show "fst (?tl ! Suc k) = double_add (fst (?tl ! k)) (snd (?tl ! k))"
      by (rule double_timeline_no_gap)
  qed
  have arrive: "outputAudioContextRef s2 \<and> b \<noteq> [] \<longrightarrow>
            nextStartTimeRef (step dec (OnMessage now (chunk_message b)) s2)
              = max now (nextStartTimeRef s2)
            \<and> effects (step dec (OnMessage now (chunk_message b)) s2) = effects s2
            \<and> sourcesRef (step dec (OnMessage now (chunk_message b)) s2) = sourcesRef s2
            \<and> decoding (step dec (OnMessage now (chunk_message b)) s2)
                = decoding s2 @ [chunk_message b]"
    using arrive_chunk_fields[of s2 b dec now] by blast
  have decoded: "i < length (decoding s2) \<and> decoding s2 ! i = chunk_message b \<and> dec b = Some d \<longrightarrow>
            effects (step dec (OnDecoded i) s2) = effects s2 @
              [BufferSourceConnect (created s2), AddEndedListener (created s2),
               SourceStart (created s2) (nextStartTimeRef s2) d]
            \<and> nextStartTimeRef (step dec (OnDecoded i) s2) = double_add (nextStartTimeRef s2) d
            \<and> sourcesRef (step dec (OnDecoded i) s2) = set_add (created s2) (sourcesRef s2)"
    using decoded_chunk_fields[of i s2 b dec d] by blast
  from R have 1: "scheduled (effects (run dec (chunk_events cs) s)) = scheduled (effects s) @ ?tl"
    and 2: "nextStartTimeRef (run dec (chunk_events cs) s) = cursor_after (nextStartTimeRef s) ?as"
    and 3: "set (sourcesRef (run dec (chunk_events cs) s)) =
           set (sourcesRef s) \<union> {created s ..< created s + length cs}"
    and 4: "listened (effects (run dec (chunk_events cs) s)) =
           listened (effects s) @ [created s ..< created s + length cs]"
    by blast+
  have 5: "\<forall>h s'. h \<notin> set (sourcesRef (onended h s'))"
    using onended_removes by blast
  from 1 2 3 4 5 overlap gap arrive decoded show ?thesis
    by (intro conjI) assumption+
qed

lemma tenth_values:
  "double_add 0 tenth = tenth" "double_add tenth fifth = above_three_tenths"
  by (simp_all only: double_add_def tenth_def fifth_def above_three_tenths_def) code_simp+

lemma tenth_sum: "above_three_tenths \<noteq> tenth + fifth" "0 \<le> tenth" "0 \<le> above_three_tenths"
  "0 \<le> tenth + fifth"
  by (simp_all add: tenth_def fifth_def above_three_tenths_def)

theorem enqueue_gapless_witness:
  "scheduled (effects (run demo_decoder (chunk_events three) connected))
     = [(0, 1), (1, 1 / 2), (3 / 2, 1)]
   \<and> nextStartTimeRef (run demo_decoder (chunk_events three) connected) = 5 / 2"
proof -
  have dec: "list_all2 (\<lambda>(now, b) d. b \<noteq> [] \<and> demo_decoder b = Some d) three [1, 1 / 2, 1]"
    by (simp add: three_def demo_decoder_def)
  note T = enqueue_gapless[OF connected_fields(1) connected_fields(11) dec]
  have 1: "scheduled (effects (run demo_decoder (chunk_events three) connected))
      = scheduled (effects connected)
        @ double_timeline (nextStartTimeRef connected) (zip (map fst three) [1, 1 / 2, 1])"
    by (rule T[THEN conjunct1])
  have 2: "nextStartTimeRef (run demo_decoder (chunk_events three) connected)
      = cursor_after (nextStartTimeRef connected) (zip (map fst three) [1, 1 / 2, 1])"
    by (rule T[THEN conjunct2, THEN conjunct1])
  show ?thesis
    unfolding 1 2 by (simp add: three_def connected_fields double_values)
qed

text \<open>
  The claim fails as stated: three chunks of 0.1, 0.2 and 1 seconds arrive at clock zero
  in the connected dialog, each handled to its end. The third chunk is started at the
  cursor, which is the double sum of the start and the duration of the second; this is
  not the exact sum, the end of the second chunk, so the start calls are not the
  timeline of the specification.
\<close>

theorem enqueue_exact_counterexample:
  "scheduled (effects (run demo_decoder (chunk_events tenths) connected))
     = [(0, tenth), (tenth, fifth), (above_three_tenths, 1)]
   \<and> above_three_tenths \<noteq> tenth + fifth
   \<and> scheduled (effects (run demo_decoder (chunk_events tenths) connected))
       \<noteq> timeline 0 [(0, tenth), (0, fifth), (0, 1)]"
proof -
  have dec: "list_all2 (\<lambda>(now, b) d. b \<noteq> [] \<and> demo_decoder b = Some d) tenths
      [tenth, fifth, 1]"
    by (simp add: tenths_def demo_decoder_def)
  have "scheduled (effects (run demo_decoder (chunk_events tenths) connected))
      = scheduled (effects connected)
        @ double_timeline (nextStartTimeRef connected) (zip (map fst tenths) [tenth, fifth, 1])"
    using run_chunks[OF dec connected_fields(1) connected_fields(11)] by blast
  then have a: "scheduled (effects (run demo_decoder (chunk_events tenths) connected))
     = [(0, tenth), (tenth, fifth), (above_three_tenths, 1)]"
    using tenth_sum(2,3) by (simp add: tenths_def connected_fields tenth_values max_def)
  have c: "timeline 0 [(0, tenth), (0, fifth), (0, 1)]
      = [(0, tenth), (tenth, fifth), (tenth + fifth, 1)]"
    using tenth_sum(2,4) by (simp add: max_def)
  show ?thesis
    unfolding a c using tenth_sum(1) by simp
qed

section \<open>Interruption\<close>

lemma step_interruption_only:
  "step dec (OnMessage now interruption_message) s = interrupt s"
  by (simp add: onmessage_begin_def has_audio_def handle_interruption_def
      interruption_message_def)

lemma decoded_chunk_scheduled:
  assumes "i < length (decoding s)" "decoding s ! i = chunk_message b" "dec b = Some d"
  shows "scheduled (effects (step dec (OnDecoded i) s))
           = scheduled (effects s) @ [(nextStartTimeRef s, d)]"
  using decoded_chunk_fields(1)[of i s b dec d] assms
  by (simp add: scheduled_append del: step.simps)

lemma handled_chunk_scheduled:
  assumes "outputAudioContextRef s" "decoding s = []" "b \<noteq> []" "dec b = Some d"
  shows "scheduled (effects (run dec [OnMessage now (chunk_message b), OnDecoded 0] s))
           = scheduled (effects s) @ [(max now (nextStartTimeRef s), d)]"
  using handled_chunk[of s b dec d now] assms
  by (simp add: handled_chunk_fields scheduled_append del: step.simps run.simps)

lemma decoded_after_interrupt:
  assumes "i < length (decoding s)" "decoding s ! i = chunk_message b" "dec b = Some d"
  shows "scheduled (effects (step dec (OnDecoded i) (interrupt s)))
           = scheduled (effects s) @ [(0, d)]"
    "sourcesRef (step dec (OnDecoded i) (interrupt s)) = [created s]"
proof -
  have i: "i < length (decoding (interrupt s))" "decoding (interrupt s) ! i = chunk_message b"
    using assms(1,2) by (simp_all add: interrupt_fields)
  show "scheduled (effects (step dec (OnDecoded i) (interrupt s)))
           = scheduled (effects s) @ [(0, d)]"
    using decoded_chunk_scheduled[of i "interrupt s" b dec d] i assms(3)
    by (simp add: interrupt_fields scheduled_append scheduled_stops del: step.simps)
  show "sourcesRef (step dec (OnDecoded i) (interrupt s)) = [created s]"
    using decoded_chunk_fields(3)[of i "interrupt s" b dec d] i assms(3)
    by (simp add: interrupt_fields set_add_def del: step.simps)
qed

text \<open>
  C2 as amended. After the interruption block the active set is empty and the cursor is
  zero (a message that carries only the interruption flag runs exactly this block, on
  arrival). A chunk, the audio of a message without the interruption flag, is started,
  when it decodes, at the cursor as it is when its decoding ends. For a non-empty chunk
  that arrives while the output context exists and no handler is waiting, and that is
  handled to its end with no other callback during the decoding, this is the maximum of
  the clock reading at its arrival and the cursor, right after the interruption the
  maximum of the clock reading and zero, so never before the clock. A chunk whose
  decoding ends right after an interruption is started at zero.
\<close>

theorem interrupt_then_enqueue:
  "sourcesRef (interrupt s) = [] \<and> nextStartTimeRef (interrupt s) = 0
   \<and> step dec (OnMessage now0 interruption_message) s = interrupt s
   \<and> (i < length (decoding s2) \<and> decoding s2 ! i = chunk_message b \<and> dec b = Some d \<longrightarrow>
        scheduled (effects (step dec (OnDecoded i) s2))
          = scheduled (effects s2) @ [(nextStartTimeRef s2, d)])
   \<and> (outputAudioContextRef s2 \<and> decoding s2 = [] \<and> b \<noteq> [] \<and> dec b = Some d \<longrightarrow>
        scheduled (effects (run dec [OnMessage now (chunk_message b), OnDecoded 0] s2))
          = scheduled (effects s2) @ [(max now (nextStartTimeRef s2), d)]
        \<and> now \<le> max now (nextStartTimeRef s2))
   \<and> (outputAudioContextRef s \<and> decoding s = [] \<and> b \<noteq> [] \<and> dec b = Some d \<longrightarrow>
        scheduled (effects (run dec [OnMessage now (chunk_message b), OnDecoded 0] (interrupt s)))
          = scheduled (effects s) @ [(max now 0, d)]
        \<and> now \<le> max now 0)
   \<and> (i < length (decoding s) \<and> decoding s ! i = chunk_message b \<and> dec b = Some d \<longrightarrow>
        scheduled (effects (step dec (OnDecoded i) (interrupt s)))
          = scheduled (effects s) @ [(0, d)])"
proof -
  have 1: "sourcesRef (interrupt s) = []" and 2: "nextStartTimeRef (interrupt s) = 0"
    by (simp_all add: interrupt_fields)
  have 3: "step dec (OnMessage now0 interruption_message) s = interrupt s"
    by (rule step_interruption_only)
  have 4: "i < length (decoding s2) \<and> decoding s2 ! i = chunk_message b \<and> dec b = Some d \<longrightarrow>
        scheduled (effects (step dec (OnDecoded i) s2))
          = scheduled (effects s2) @ [(nextStartTimeRef s2, d)]"
    using decoded_chunk_scheduled[of i s2 b dec d] by blast
  have 5: "outputAudioContextRef s2 \<and> decoding s2 = [] \<and> b \<noteq> [] \<and> dec b = Some d \<longrightarrow>
        scheduled (effects (run dec [OnMessage now (chunk_message b), OnDecoded 0] s2))
          = scheduled (effects s2) @ [(max now (nextStartTimeRef s2), d)]
        \<and> now \<le> max now (nextStartTimeRef s2)"
    using handled_chunk_scheduled[of s2 b dec d now] by simp
  have 6: "outputAudioContextRef s \<and> decoding s = [] \<and> b \<noteq> [] \<and> dec b = Some d \<longrightarrow>
        scheduled (effects (run dec [OnMessage now (chunk_message b), OnDecoded 0] (interrupt s)))
          = scheduled (effects s) @ [(max now 0, d)]
        \<and> now \<le> max now 0"
    using handled_chunk_scheduled[of "interrupt s" b dec d now]
    by (simp add: interrupt_fields scheduled_append scheduled_stops del: step.simps run.simps)
  have 7: "i < length (decoding s) \<and> decoding s ! i = chunk_message b \<and> dec b = Some d \<longrightarrow>
        scheduled (effects (step dec (OnDecoded i) (interrupt s)))
          = scheduled (effects s) @ [(0, d)]"
    using decoded_after_interrupt(1)[of i s b dec d] by blast
  from 1 2 3 4 5 6 7 show ?thesis
    by (intro conjI) assumption+
qed

theorem interrupt_then_enqueue_witness:
  "sourcesRef (interrupt playing) = [] \<and> nextStartTimeRef (interrupt playing) = 0
   \<and> scheduled (effects (run demo_decoder [OnMessage 7 (chunk_message ''BBBB''), OnDecoded 0]
        (interrupt playing))) = [(0, 5), (7, 2)]
   \<and> scheduled (effects (run demo_decoder [OnMessage 1 (chunk_message ''BBBB''), OnDecoded 0]
        playing)) = [(0, 5), (5, 2)]"
proof -
  have b: "outputAudioContextRef playing \<and> decoding playing = [] \<and> ''BBBB'' \<noteq> []
      \<and> demo_decoder ''BBBB'' = Some 2"
    by (simp add: demo_decoder_def playing_fields)
  note T = interrupt_then_enqueue[where s = playing and ?s2.0 = playing and b = "''BBBB''"
      and dec = demo_decoder and d = 2]
  have 1: "sourcesRef (interrupt playing) = []" "nextStartTimeRef (interrupt playing) = 0"
    using T[THEN conjunct1] T[THEN conjunct2, THEN conjunct1] by simp_all
  have 2: "scheduled (effects (run demo_decoder [OnMessage 7 (chunk_message ''BBBB''), OnDecoded 0]
        (interrupt playing))) = scheduled (effects playing) @ [(max 7 0, 2)]"
    using T[where now = 7, THEN conjunct2, THEN conjunct2, THEN conjunct2, THEN conjunct2,
        THEN conjunct2, THEN conjunct1] b
    by blast
  have 3: "scheduled (effects (run demo_decoder [OnMessage 1 (chunk_message ''BBBB''), OnDecoded 0]
        playing)) = scheduled (effects playing) @ [(max 1 (nextStartTimeRef playing), 2)]"
    using T[where now = 1, THEN conjunct2, THEN conjunct2, THEN conjunct2, THEN conjunct2,
        THEN conjunct1] b
    by blast
  show ?thesis
    unfolding 2 3 using 1 by (simp add: playing_fields)
qed

text \<open>
  The claim fails as stated: in the playing session an interruption arrives, then at
  clock 6 a chunk of two seconds; while the chunk is being decoded a second interruption
  arrives; when the decoding ends the chunk, which was enqueued after the first
  interruption had returned, is started at zero, before the clock.
\<close>

theorem enqueue_after_interrupt_counterexample:
  "scheduled (effects (run demo_decoder
      [OnMessage (11 / 2) interruption_message, OnMessage 6 (chunk_message ''BBBB''),
       OnMessage (13 / 2) interruption_message, OnDecoded 0] playing))
     = [(0, 5), (0, 2)]
   \<and> fst (last (scheduled (effects (run demo_decoder
      [OnMessage (11 / 2) interruption_message, OnMessage 6 (chunk_message ''BBBB''),
       OnMessage (13 / 2) interruption_message, OnDecoded 0] playing)))) < 6
   \<and> sourcesRef (run demo_decoder
      [OnMessage (11 / 2) interruption_message, OnMessage 6 (chunk_message ''BBBB''),
       OnMessage (13 / 2) interruption_message, OnDecoded 0] playing) = [1]"
proof -
  let ?s1 = "interrupt playing"
  let ?s2 = "step demo_decoder (OnMessage 6 (chunk_message ''BBBB'')) ?s1"
  have ctx1: "outputAudioContextRef ?s1" "''BBBB'' \<noteq> []"
    by (simp_all add: interrupt_fields playing_fields)
  note A = arrive_chunk_fields[OF ctx1, of demo_decoder 6]
  have dec2: "0 < length (decoding ?s2)" "decoding ?s2 ! 0 = chunk_message ''BBBB''"
    "demo_decoder ''BBBB'' = Some 2"
    unfolding A by (simp_all add: interrupt_fields playing_fields demo_decoder_def)
  note D = decoded_after_interrupt[of 0 ?s2 "''BBBB''" demo_decoder 2, OF dec2]
  have eff2: "scheduled (effects ?s2) = [(0, 5)]" "created ?s2 = 1"
    unfolding A by (simp_all add: interrupt_fields playing_fields scheduled_append scheduled_stops
        onmessage_begin_def has_audio_def chunk_message_def audio_arrived_def)
  have r: "run demo_decoder
      [OnMessage (11 / 2) interruption_message, OnMessage 6 (chunk_message ''BBBB''),
       OnMessage (13 / 2) interruption_message, OnDecoded 0] playing
      = step demo_decoder (OnDecoded 0) (interrupt ?s2)"
    by (simp add: step_interruption_only del: step.simps)
  show ?thesis
    unfolding r D using eff2 by simp
qed

section \<open>Interruption and audio in one message\<close>

lemma decoded_both_fields:
  assumes "i < length (decoding s)" "decoding s ! i = both_message b" "dec b = Some d"
  shows "effects (step dec (OnDecoded i) s) = effects s @
           [BufferSourceConnect (created s), AddEndedListener (created s),
            SourceStart (created s) (nextStartTimeRef s) d]
           @ map SourceStop (set_add (created s) (sourcesRef s))"
    "sourcesRef (step dec (OnDecoded i) s) = []"
    "nextStartTimeRef (step dec (OnDecoded i) s) = 0"
    "\<not> isAIResponding (step dec (OnDecoded i) s)"
    "decoding (step dec (OnDecoded i) s) = without i (decoding s)"
    "created (step dec (OnDecoded i) s) = Suc (created s)"
    "outputAudioContextRef (step dec (OnDecoded i) s) = outputAudioContextRef s"
proof -
  have "step dec (OnDecoded i) s
      = interrupt (schedule_source d (s\<lparr>decoding := without i (decoding s)\<rparr>))"
    using assms(1,2) _ assms(3)
    by (rule decoded_both) (simp_all add: both_message_def)
  then show "effects (step dec (OnDecoded i) s) = effects s @
           [BufferSourceConnect (created s), AddEndedListener (created s),
            SourceStart (created s) (nextStartTimeRef s) d]
           @ map SourceStop (set_add (created s) (sourcesRef s))"
    "sourcesRef (step dec (OnDecoded i) s) = []"
    "nextStartTimeRef (step dec (OnDecoded i) s) = 0"
    "\<not> isAIResponding (step dec (OnDecoded i) s)"
    "decoding (step dec (OnDecoded i) s) = without i (decoding s)"
    "created (step dec (OnDecoded i) s) = Suc (created s)"
    "outputAudioContextRef (step dec (OnDecoded i) s) = outputAudioContextRef s"
    by (simp_all add: interrupt_fields schedule_source_fields del: step.simps)
qed

lemma handled_both:
  assumes "outputAudioContextRef s" "decoding s = []" "b \<noteq> []" "dec b = Some d"
  shows "run dec [OnMessage now (both_message b), OnDecoded 0] s
           = interrupt (schedule_source d (audio_arrived now s))"
proof -
  have m: "has_audio (both_message b)" "audio (both_message b) = Some b"
    "interrupted (both_message b)"
    using assms(3) by (simp_all add: has_audio_def both_message_def)
  let ?s1 = "(audio_arrived now s)\<lparr>decoding := decoding s @ [both_message b]\<rparr>"
  have a: "step dec (OnMessage now (both_message b)) s = ?s1"
    using assms(1) m(1) by (rule arrive_chunk)
  have d: "step dec (OnDecoded 0) ?s1
      = interrupt (schedule_source d (?s1\<lparr>decoding := without 0 (decoding ?s1)\<rparr>))"
    by (rule decoded_both[where m = "both_message b" and b = b])
      (simp_all add: assms(2,4) m)
  have "?s1\<lparr>decoding := without 0 (decoding ?s1)\<rparr> = audio_arrived now s"
    using assms(2) by (simp add: without_single audio_arrived_def)
  with a d show ?thesis
    by (simp del: step.simps)
qed

lemma handled_both_fields:
  "effects (interrupt (schedule_source d (audio_arrived now s))) = effects s @
     [BufferSourceConnect (created s), AddEndedListener (created s),
      SourceStart (created s) (max now (nextStartTimeRef s)) d]
     @ map SourceStop (set_add (created s) (sourcesRef s))"
  "sourcesRef (interrupt (schedule_source d (audio_arrived now s))) = []"
  "nextStartTimeRef (interrupt (schedule_source d (audio_arrived now s))) = 0"
  "\<not> isAIResponding (interrupt (schedule_source d (audio_arrived now s)))"
  "decoding (interrupt (schedule_source d (audio_arrived now s))) = decoding s"
  "created (interrupt (schedule_source d (audio_arrived now s))) = Suc (created s)"
  "outputAudioContextRef (interrupt (schedule_source d (audio_arrived now s)))
     = outputAudioContextRef s"
  by (simp_all add: interrupt_fields handled_chunk_fields)

text \<open>
  C3 as amended. When a message carries a chunk together with the interruption flag and
  the chunk decodes, the handler, at the end of the decoding, first starts the chunk at
  the cursor as it is then and then applies the interruption: the chunk is stopped with
  every other active source, the active set is empty, the cursor is zero and the
  indicator is off. When the message with its non-empty chunk arrives while the output
  context exists and no handler is waiting, and no callback runs during the decoding,
  the chunk is started at the maximum of the clock reading and the old cursor; non-empty
  chunks of messages without the flag that arrive after it, decode and are each handled
  to the end before the next callback make a fresh timeline from cursor zero, and they
  alone are active. A message with the interruption flag alone is applied on arrival. A
  chunk of a message without the flag that is being decoded when an interruption is
  applied is not dropped: when it decodes, it is started at zero and is active. When
  the chunk of a message with the interruption flag does not decode, the handler ends
  at the decoder: nothing is started and the interruption is not applied.
\<close>

theorem interruption_after_audio:
  "(i < length (decoding s) \<and> decoding s ! i = both_message b \<and> dec b = Some d \<longrightarrow>
      effects (step dec (OnDecoded i) s) = effects s @
        [BufferSourceConnect (created s), AddEndedListener (created s),
         SourceStart (created s) (nextStartTimeRef s) d]
        @ map SourceStop (set_add (created s) (sourcesRef s))
      \<and> sourcesRef (step dec (OnDecoded i) s) = []
      \<and> nextStartTimeRef (step dec (OnDecoded i) s) = 0
      \<and> \<not> isAIResponding (step dec (OnDecoded i) s))
   \<and> (outputAudioContextRef s \<and> decoding s = [] \<and> b \<noteq> [] \<and> dec b = Some d
        \<and> list_all2 (\<lambda>(now, b) d. b \<noteq> [] \<and> dec b = Some d) cs ds \<longrightarrow>
      scheduled (effects (run dec [OnMessage now (both_message b), OnDecoded 0] s))
        = scheduled (effects s) @ [(max now (nextStartTimeRef s), d)]
      \<and> sourcesRef (run dec [OnMessage now (both_message b), OnDecoded 0] s) = []
      \<and> nextStartTimeRef (run dec [OnMessage now (both_message b), OnDecoded 0] s) = 0
      \<and> \<not> isAIResponding (run dec [OnMessage now (both_message b), OnDecoded 0] s)
      \<and> scheduled (effects (run dec
            ([OnMessage now (both_message b), OnDecoded 0] @ chunk_events cs) s))
        = scheduled (effects s) @ [(max now (nextStartTimeRef s), d)]
            @ double_timeline 0 (zip (map fst cs) ds)
      \<and> set (sourcesRef (run dec
            ([OnMessage now (both_message b), OnDecoded 0] @ chunk_events cs) s))
        = {Suc (created s) ..< Suc (created s) + length cs})
   \<and> step dec (OnMessage now interruption_message) s = interrupt s
   \<and> (i < length (decoding s) \<and> decoding s ! i = chunk_message b \<and> dec b = Some d \<longrightarrow>
      scheduled (effects (step dec (OnDecoded i) (interrupt s)))
        = scheduled (effects s) @ [(0, d)]
      \<and> sourcesRef (step dec (OnDecoded i) (interrupt s)) = [created s])
   \<and> (i < length (decoding s) \<and> decoding s ! i = both_message b \<and> dec b = None \<longrightarrow>
      step dec (OnDecoded i) s = s\<lparr>decoding := without i (decoding s)\<rparr>)"
proof -
  have 1: "i < length (decoding s) \<and> decoding s ! i = both_message b \<and> dec b = Some d \<longrightarrow>
      effects (step dec (OnDecoded i) s) = effects s @
        [BufferSourceConnect (created s), AddEndedListener (created s),
         SourceStart (created s) (nextStartTimeRef s) d]
        @ map SourceStop (set_add (created s) (sourcesRef s))
      \<and> sourcesRef (step dec (OnDecoded i) s) = []
      \<and> nextStartTimeRef (step dec (OnDecoded i) s) = 0
      \<and> \<not> isAIResponding (step dec (OnDecoded i) s)"
    using decoded_both_fields[of i s b dec d] by blast
  have 2: "scheduled (effects (run dec [OnMessage now (both_message b), OnDecoded 0] s))
        = scheduled (effects s) @ [(max now (nextStartTimeRef s), d)]
      \<and> sourcesRef (run dec [OnMessage now (both_message b), OnDecoded 0] s) = []
      \<and> nextStartTimeRef (run dec [OnMessage now (both_message b), OnDecoded 0] s) = 0
      \<and> \<not> isAIResponding (run dec [OnMessage now (both_message b), OnDecoded 0] s)
      \<and> scheduled (effects (run dec
            ([OnMessage now (both_message b), OnDecoded 0] @ chunk_events cs) s))
        = scheduled (effects s) @ [(max now (nextStartTimeRef s), d)]
            @ double_timeline 0 (zip (map fst cs) ds)
      \<and> set (sourcesRef (run dec
            ([OnMessage now (both_message b), OnDecoded 0] @ chunk_events cs) s))
        = {Suc (created s) ..< Suc (created s) + length cs}"
    if h: "outputAudioContextRef s \<and> decoding s = [] \<and> b \<noteq> [] \<and> dec b = Some d
        \<and> list_all2 (\<lambda>(now, b) d. b \<noteq> [] \<and> dec b = Some d) cs ds"
  proof -
    let ?s1 = "interrupt (schedule_source d (audio_arrived now s))"
    have r1: "run dec [OnMessage now (both_message b), OnDecoded 0] s = ?s1"
      using h handled_both[of s b dec d now] by blast
    have sch1: "scheduled (effects ?s1) = scheduled (effects s) @ [(max now (nextStartTimeRef s), d)]"
      by (simp add: handled_both_fields scheduled_append scheduled_stops)
    have ctx1: "outputAudioContextRef ?s1" and dec1: "decoding ?s1 = []"
      using h by (simp_all add: handled_both_fields)
    from h have l: "list_all2 (\<lambda>(now, b) d. b \<noteq> [] \<and> dec b = Some d) cs ds" by blast
    note R = run_chunks[OF l ctx1 dec1]
    have r2: "run dec ([OnMessage now (both_message b), OnDecoded 0] @ chunk_events cs) s
        = run dec (chunk_events cs) ?s1"
      by (simp only: run_append r1)
    have a: "scheduled (effects (run dec (chunk_events cs) ?s1))
        = scheduled (effects s) @ [(max now (nextStartTimeRef s), d)]
            @ double_timeline 0 (zip (map fst cs) ds)"
      using R sch1 by (simp add: handled_both_fields)
    have b: "set (sourcesRef (run dec (chunk_events cs) ?s1))
        = {Suc (created s) ..< Suc (created s) + length cs}"
      using R by (simp add: handled_both_fields)
    show ?thesis
      unfolding r1 r2 using sch1 a b by (simp add: handled_both_fields)
  qed
  have 3: "step dec (OnMessage now interruption_message) s = interrupt s"
    by (rule step_interruption_only)
  have 4: "i < length (decoding s) \<and> decoding s ! i = chunk_message b \<and> dec b = Some d \<longrightarrow>
      scheduled (effects (step dec (OnDecoded i) (interrupt s)))
        = scheduled (effects s) @ [(0, d)]
      \<and> sourcesRef (step dec (OnDecoded i) (interrupt s)) = [created s]"
    using decoded_after_interrupt[of i s b dec d] by blast
  have 5: "i < length (decoding s) \<and> decoding s ! i = both_message b \<and> dec b = None \<longrightarrow>
      step dec (OnDecoded i) s = s\<lparr>decoding := without i (decoding s)\<rparr>"
    by (simp add: onmessage_resume_def both_message_def)
  from 1 2 3 4 5 show ?thesis
    by (intro conjI impI) (assumption | blast)+
qed

theorem interruption_after_audio_witness:
  "sourcesRef (run demo_decoder [OnMessage 1 (both_message ''BBBB''), OnDecoded 0] playing) = []
   \<and> scheduled (effects (run demo_decoder
        ([OnMessage 1 (both_message ''BBBB''), OnDecoded 0]
          @ chunk_events [(2, ''CCCC''), (2, ''BBBB'')]) playing))
      = [(0, 5), (5, 2), (2, 1), (3, 2)]"
proof -
  have h: "outputAudioContextRef playing \<and> decoding playing = [] \<and> ''BBBB'' \<noteq> []
      \<and> demo_decoder ''BBBB'' = Some 2
      \<and> list_all2 (\<lambda>(now, b) d. b \<noteq> [] \<and> demo_decoder b = Some d)
          [(2, ''CCCC''), (2, ''BBBB'')] [1, 2]"
    by (simp add: playing_fields demo_decoder_def)
  note T = interruption_after_audio[where s = playing and b = "''BBBB''" and dec = demo_decoder
      and d = 2 and now = 1 and cs = "[(2, ''CCCC''), (2, ''BBBB'')]" and ds = "[1, 2]",
      THEN conjunct2, THEN conjunct1, rule_format, OF h]
  have 1: "sourcesRef (run demo_decoder [OnMessage 1 (both_message ''BBBB''), OnDecoded 0] playing)
      = []"
    by (rule T[THEN conjunct2, THEN conjunct1])
  have 2: "scheduled (effects (run demo_decoder
        ([OnMessage 1 (both_message ''BBBB''), OnDecoded 0]
          @ chunk_events [(2, ''CCCC''), (2, ''BBBB'')]) playing))
      = scheduled (effects playing) @ [(max 1 (nextStartTimeRef playing), 2)]
          @ double_timeline 0 (zip (map fst [(2, ''CCCC''), (2, ''BBBB'')]) [1, 2])"
    by (rule T[THEN conjunct2, THEN conjunct2, THEN conjunct2, THEN conjunct2, THEN conjunct1])
  show ?thesis
    unfolding 1 2 by (simp add: playing_fields double_values)
qed

text \<open>
  The claim fails as stated. In the playing session a chunk of two seconds arrives at
  clock 6, an interruption arrives while it is being decoded, and at the end of the
  decoding the chunk is started, at zero, and is active. And a message that carries a
  chunk of two seconds together with the interruption flag at clock 1 has its chunk
  started at 5 on the old timeline, and then stopped, where the interruption applied
  first would have started it at 1 on a fresh timeline.
\<close>

theorem interruption_first_counterexample:
  "scheduled (effects (run demo_decoder
      [OnMessage 6 (chunk_message ''BBBB''), OnMessage 7 interruption_message, OnDecoded 0]
      playing)) = [(0, 5), (0, 2)]
   \<and> sourcesRef (run demo_decoder
      [OnMessage 6 (chunk_message ''BBBB''), OnMessage 7 interruption_message, OnDecoded 0]
      playing) = [1]
   \<and> scheduled (effects (run demo_decoder [OnMessage 1 (both_message ''BBBB''), OnDecoded 0]
        playing)) = [(0, 5), (5, 2)]
   \<and> sourcesRef (run demo_decoder [OnMessage 1 (both_message ''BBBB''), OnDecoded 0] playing)
       = []"
proof -
  let ?s2 = "step demo_decoder (OnMessage 6 (chunk_message ''BBBB'')) playing"
  have ctx1: "outputAudioContextRef playing" "''BBBB'' \<noteq> []"
    by (simp_all add: playing_fields)
  note A = arrive_chunk_fields[OF ctx1, of demo_decoder 6]
  have dec2: "0 < length (decoding ?s2)" "decoding ?s2 ! 0 = chunk_message ''BBBB''"
    "demo_decoder ''BBBB'' = Some 2"
    unfolding A by (simp_all add: playing_fields demo_decoder_def)
  note D = decoded_after_interrupt[of 0 ?s2 "''BBBB''" demo_decoder 2, OF dec2]
  have eff2: "scheduled (effects ?s2) = [(0, 5)]" "created ?s2 = 1"
    unfolding A by (simp_all add: playing_fields
        onmessage_begin_def has_audio_def chunk_message_def audio_arrived_def)
  have r: "run demo_decoder
      [OnMessage 6 (chunk_message ''BBBB''), OnMessage 7 interruption_message, OnDecoded 0]
      playing = step demo_decoder (OnDecoded 0) (interrupt ?s2)"
    by (simp add: step_interruption_only del: step.simps)
  have b: "run demo_decoder [OnMessage 1 (both_message ''BBBB''), OnDecoded 0] playing
      = interrupt (schedule_source 2 (audio_arrived 1 playing))"
    by (rule handled_both) (simp_all add: playing_fields demo_decoder_def)
  show ?thesis
    unfolding r D b using eff2
    by (simp add: handled_both_fields scheduled_append scheduled_stops playing_fields)
qed

section \<open>The channel error signal\<close>

lemma cleanupAudio_scheduled: "scheduled (effects (cleanupAudio s)) = scheduled (effects s)"
  by (simp add: cleanupAudio_def Let_def release_processor_def release_source_def
      release_stream_def release_input_def release_output_def stop_sources_def
      scheduled_append scheduled_stops)

lemma cleanupAudio_keeps:
  "error (cleanupAudio s) = error s" "nextStartTimeRef (cleanupAudio s) = nextStartTimeRef s"
  "created (cleanupAudio s) = created s" "decoding (cleanupAudio s) = decoding s"
  by (simp_all add: cleanupAudio_def Let_def release_processor_def release_source_def
      release_stream_def release_input_def release_output_def stop_sources_def)

lemma cleanupAudio_effects:
  "effects (cleanupAudio s) = effects s
     @ (if processorRef s then [ProcessorDisconnect] else [])
     @ (if sourceRef s then [MicSourceDisconnect] else [])
     @ (if streamRef s then [StreamTracksStop] else [])
     @ (if inputAudioContextRef s then [InputContextClose] else [])
     @ (if outputAudioContextRef s then [OutputContextClose] else [])
     @ map SourceStop (sourcesRef s)"
  by (simp add: cleanupAudio_def Let_def release_processor_def release_source_def
      release_stream_def release_input_def release_output_def stop_sources_def)

lemma silent_step:
  assumes "\<not> outputAudioContextRef s" "decoding s = []" "\<not> is_connect e"
  shows "\<not> outputAudioContextRef (step dec e s) \<and> decoding (step dec e s) = []
       \<and> scheduled (effects (step dec e s)) = scheduled (effects s)"
proof (cases e)
  case (Connect k ns)
  with assms show ?thesis by simp
next
  case (OnUserMedia i g)
  with assms show ?thesis by (simp add: connect_resume_def scheduled_append)
next
  case OnOpen
  with assms show ?thesis by (simp add: onopen_def Let_def)
next
  case (OnAudioProcess xs)
  with assms show ?thesis by (simp add: onaudioprocess_def Let_def scheduled_append)
next
  case (OnMessage now m)
  with assms show ?thesis
    by (simp add: onmessage_begin_def handle_interruption_def interrupt_fields scheduled_append
        scheduled_stops)
next
  case (OnDecoded i)
  with assms show ?thesis by simp
next
  case (OnEnded h)
  with assms show ?thesis by (simp add: onended_def Let_def)
next
  case OnClose
  with assms show ?thesis by (simp add: onclose_def)
next
  case OnError
  with assms show ?thesis by (simp add: onerror_def)
next
  case Dismiss
  with assms show ?thesis
    by (simp add: cleanupAudio_scheduled cleanupAudio_refs cleanupAudio_keeps)
qed

lemma silent_run:
  assumes "\<not> outputAudioContextRef s" "decoding s = []" "\<forall>e\<in>set es. \<not> is_connect e"
  shows "scheduled (effects (run dec es s)) = scheduled (effects s)"
  using assms
proof (induction es arbitrary: s)
  case Nil
  then show ?case by simp
next
  case (Cons e es)
  from Cons.prems have e: "\<not> is_connect e" and es: "\<forall>e\<in>set es. \<not> is_connect e"
    by simp_all
  from silent_step[OF Cons.prems(1,2) e, of dec]
  have 1: "\<not> outputAudioContextRef (step dec e s)"
    and 2: "decoding (step dec e s) = []"
    and 3: "scheduled (effects (step dec e s)) = scheduled (effects s)"
    by simp_all
  from Cons.IH[OF 1 2 es] 3 show ?case
    by (simp del: step.simps)
qed

lemma onerror_fields:
  "error (onerror s) = Some ''Connection error.''" "\<not> isConnected (onerror s)"
  "processorRef (onerror s) = processorRef s" "sourceRef (onerror s) = sourceRef s"
  "streamRef (onerror s) = streamRef s"
  "inputAudioContextRef (onerror s) = inputAudioContextRef s"
  "outputAudioContextRef (onerror s) = outputAudioContextRef s"
  "sourcesRef (onerror s) = sourcesRef s"
  "nextStartTimeRef (onerror s) = nextStartTimeRef s"
  "effects (onerror s) = effects s"
  "decoding (onerror s) = decoding s"
  "created (onerror s) = created s"
  by (simp_all add: onerror_def)

text \<open>
  C4 as amended. The error callback does what the close callback does, which is to lower
  the connected flag, and sets the error text "Connection error."; it releases nothing:
  the capture nodes, the stream, the two contexts, the active set, the cursor, the
  device calls and the waiting handlers are as before. The teardown is cleanupAudio,
  run when the dialog is dismissed: it makes the release call of every ref that is set,
  stops every source that is active, empties the set and keeps the error text. When no
  handler is waiting for the decoder at the error, no source is started after the
  dismissal unless the dialog is opened anew. A handler that is waiting for the decoder
  is not cancelled: the handler of a message without the interruption flag starts its
  source, at the cursor, when its chunk decodes after the dismissal.
\<close>

theorem error_signal_then_dismissal:
  "onerror s = (onclose s)\<lparr>error := Some ''Connection error.''\<rparr>
   \<and> error (onerror s) = Some ''Connection error.'' \<and> \<not> isConnected (onerror s)
   \<and> processorRef (onerror s) = processorRef s \<and> sourceRef (onerror s) = sourceRef s
   \<and> streamRef (onerror s) = streamRef s
   \<and> inputAudioContextRef (onerror s) = inputAudioContextRef s
   \<and> outputAudioContextRef (onerror s) = outputAudioContextRef s
   \<and> sourcesRef (onerror s) = sourcesRef s
   \<and> nextStartTimeRef (onerror s) = nextStartTimeRef s
   \<and> effects (onerror s) = effects s
   \<and> decoding (onerror s) = decoding s
   \<and> \<not> processorRef (step dec Dismiss (onerror s))
   \<and> \<not> sourceRef (step dec Dismiss (onerror s))
   \<and> \<not> streamRef (step dec Dismiss (onerror s))
   \<and> \<not> inputAudioContextRef (step dec Dismiss (onerror s))
   \<and> \<not> outputAudioContextRef (step dec Dismiss (onerror s))
   \<and> sourcesRef (step dec Dismiss (onerror s)) = []
   \<and> \<not> isAIResponding (step dec Dismiss (onerror s))
   \<and> error (step dec Dismiss (onerror s)) = Some ''Connection error.''
   \<and> effects (step dec Dismiss (onerror s)) = effects s
        @ (if processorRef s then [ProcessorDisconnect] else [])
        @ (if sourceRef s then [MicSourceDisconnect] else [])
        @ (if streamRef s then [StreamTracksStop] else [])
        @ (if inputAudioContextRef s then [InputContextClose] else [])
        @ (if outputAudioContextRef s then [OutputContextClose] else [])
        @ map SourceStop (sourcesRef s)
   \<and> ((\<forall>e\<in>set es. \<not> is_connect e) \<and> decoding s = [] \<longrightarrow>
        scheduled (effects (run dec (OnError # Dismiss # es) s)) = scheduled (effects s))
   \<and> (i < length (decoding s) \<and> decoding s ! i = chunk_message b \<and> dec b = Some d \<longrightarrow>
        scheduled (effects (run dec [OnError, Dismiss, OnDecoded i] s))
          = scheduled (effects s) @ [(nextStartTimeRef s, d)])"
proof -
  have a: "onerror s = (onclose s)\<lparr>error := Some ''Connection error.''\<rparr>"
    by (simp add: onerror_def onclose_def)
  note b = onerror_fields[of s]
  have c: "\<not> processorRef (step dec Dismiss (onerror s))"
    "\<not> sourceRef (step dec Dismiss (onerror s))"
    "\<not> streamRef (step dec Dismiss (onerror s))"
    "\<not> inputAudioContextRef (step dec Dismiss (onerror s))"
    "\<not> outputAudioContextRef (step dec Dismiss (onerror s))"
    "sourcesRef (step dec Dismiss (onerror s)) = []"
    "\<not> isAIResponding (step dec Dismiss (onerror s))"
    "error (step dec Dismiss (onerror s)) = Some ''Connection error.''"
    by (simp_all add: cleanupAudio_refs cleanupAudio_keeps b)
  have d: "effects (step dec Dismiss (onerror s)) = effects s
        @ (if processorRef s then [ProcessorDisconnect] else [])
        @ (if sourceRef s then [MicSourceDisconnect] else [])
        @ (if streamRef s then [StreamTracksStop] else [])
        @ (if inputAudioContextRef s then [InputContextClose] else [])
        @ (if outputAudioContextRef s then [OutputContextClose] else [])
        @ map SourceStop (sourcesRef s)"
    using cleanupAudio_effects[of "onerror s"] by (simp only: step.simps b)
  have e: "(\<forall>e\<in>set es. \<not> is_connect e) \<and> decoding s = [] \<longrightarrow>
        scheduled (effects (run dec (OnError # Dismiss # es) s)) = scheduled (effects s)"
  proof
    assume h: "(\<forall>e\<in>set es. \<not> is_connect e) \<and> decoding s = []"
    have "scheduled (effects (run dec es (cleanupAudio (onerror s))))
        = scheduled (effects (cleanupAudio (onerror s)))"
      using h by (intro silent_run) (simp_all add: cleanupAudio_refs cleanupAudio_keeps b)
    then show "scheduled (effects (run dec (OnError # Dismiss # es) s)) = scheduled (effects s)"
      by (simp add: cleanupAudio_scheduled b)
  qed
  have f: "i < length (decoding s) \<and> decoding s ! i = chunk_message b \<and> dec b = Some d \<longrightarrow>
        scheduled (effects (run dec [OnError, Dismiss, OnDecoded i] s))
          = scheduled (effects s) @ [(nextStartTimeRef s, d)]"
  proof
    assume h: "i < length (decoding s) \<and> decoding s ! i = chunk_message b \<and> dec b = Some d"
    let ?t = "cleanupAudio (onerror s)"
    have "i < length (decoding ?t)" "decoding ?t ! i = chunk_message b" "dec b = Some d"
      using h by (simp_all add: cleanupAudio_keeps b)
    then have "scheduled (effects (step dec (OnDecoded i) ?t))
        = scheduled (effects ?t) @ [(nextStartTimeRef ?t, d)]"
      using decoded_chunk_scheduled[of i ?t b dec d] by blast
    then show "scheduled (effects (run dec [OnError, Dismiss, OnDecoded i] s))
          = scheduled (effects s) @ [(nextStartTimeRef s, d)]"
      by (simp add: cleanupAudio_scheduled cleanupAudio_keeps b del: step.simps(6))
  qed
  from a b(1-11) c d e f show ?thesis
    by (intro conjI) assumption+
qed

theorem error_signal_then_dismissal_witness:
  "scheduled (effects (run demo_decoder
      [OnError, Dismiss, OnMessage 6 (chunk_message ''BBBB''), OnDecoded 0] playing)) = [(0, 5)]
   \<and> error (onerror playing) = Some ''Connection error.''
   \<and> sourcesRef (onerror playing) = [0]"
proof -
  note T = error_signal_then_dismissal[where s = playing and dec = demo_decoder
      and es = "[OnMessage 6 (chunk_message ''BBBB''), OnDecoded 0]"]
  have quiet: "(\<forall>e\<in>set [OnMessage 6 (chunk_message ''BBBB''), OnDecoded 0]. \<not> is_connect e)
      \<and> decoding playing = [] \<longrightarrow>
      scheduled (effects (run demo_decoder
        (OnError # Dismiss # [OnMessage 6 (chunk_message ''BBBB''), OnDecoded 0]) playing))
      = scheduled (effects playing)"
    using T by blast
  have msg: "error (onerror playing) = Some ''Connection error.''"
    using T by blast
  have kept: "sourcesRef (onerror playing) = sourcesRef playing"
    using T by blast
  have h: "(\<forall>e\<in>set [OnMessage 6 (chunk_message ''BBBB''), OnDecoded 0]. \<not> is_connect e)
      \<and> decoding playing = []"
    by (simp add: playing_fields)
  from quiet h have "scheduled (effects (run demo_decoder
        (OnError # Dismiss # [OnMessage 6 (chunk_message ''BBBB''), OnDecoded 0]) playing))
      = scheduled (effects playing)"
    by (rule mp)
  then have q: "scheduled (effects (run demo_decoder
        [OnError, Dismiss, OnMessage 6 (chunk_message ''BBBB''), OnDecoded 0] playing))
      = [(0, 5)]"
    by (simp only: playing_fields(11))
  from q msg kept show ?thesis
    by (simp only: playing_fields(8))
qed

text \<open>
  The claim fails as stated: in the playing session the error callback leaves the source
  of the five second chunk active and not stopped, the capture processor and the stream
  in place and the output context open, and a chunk that arrives afterwards is still
  started; cleanupAudio in the same state releases all of them.
\<close>

theorem error_teardown_counterexample:
  "sourcesRef (onerror playing) = [0]
   \<and> SourceStop 0 \<notin> set (effects (onerror playing))
   \<and> processorRef (onerror playing) \<and> streamRef (onerror playing)
   \<and> outputAudioContextRef (onerror playing)
   \<and> scheduled (effects (run demo_decoder
        [OnError, OnMessage 6 (chunk_message ''BBBB''), OnDecoded 0] playing))
       = [(0, 5), (6, 2)]
   \<and> sourcesRef (cleanupAudio playing) = []
   \<and> \<not> processorRef (cleanupAudio playing) \<and> \<not> streamRef (cleanupAudio playing)
   \<and> \<not> outputAudioContextRef (cleanupAudio playing)"
proof -
  have "scheduled (effects (run demo_decoder [OnMessage 6 (chunk_message ''BBBB''), OnDecoded 0]
        (onerror playing))) = scheduled (effects (onerror playing))
          @ [(max 6 (nextStartTimeRef (onerror playing)), 2)]"
    by (rule handled_chunk_scheduled)
      (simp_all add: onerror_fields playing_fields demo_decoder_def)
  then have "scheduled (effects (run demo_decoder
        [OnError, OnMessage 6 (chunk_message ''BBBB''), OnDecoded 0] playing))
       = [(0, 5), (6, 2)]"
    by (simp add: onerror_fields playing_fields del: step.simps(5,6))
  then show ?thesis
    by (simp add: onerror_fields playing_fields cleanupAudio_refs del: step.simps run.simps)
qed

section \<open>The responding indicator\<close>

lemma onended_matches:
  assumes "indicator_matches s"
  shows "indicator_matches (onended h s)"
proof (cases "removeAll h (sourcesRef s) = []")
  case True
  then show ?thesis by (simp add: onended_def Let_def indicator_matches_def)
next
  case False
  then have "sourcesRef s \<noteq> []" by auto
  with assms False show ?thesis by (simp add: onended_def Let_def indicator_matches_def)
qed

lemma message_handled_matches:
  assumes "indicator_matches s" "decoding s = []" "decodes dec (OnMessage now m)"
  shows "indicator_matches (run dec [OnMessage now m, OnDecoded 0] s)
       \<and> decoding (run dec [OnMessage now m, OnDecoded 0] s) = []"
proof (cases "has_audio m \<and> outputAudioContextRef s")
  case True
  then obtain b where b: "audio m = Some b"
    by (auto simp add: has_audio_def split: option.splits)
  with assms(3) obtain d where d: "dec b = Some d" by auto
  from True b d assms(2) show ?thesis
    by (simp add: onmessage_begin_def onmessage_resume_def handle_interruption_def
        indicator_matches_def without_def interrupt_fields schedule_source_fields
        audio_arrived_fields set_add_not_empty)
next
  case False
  with assms(1,2) show ?thesis
    by (auto simp add: onmessage_begin_def handle_interruption_def indicator_matches_def
        interrupt_fields)
qed

lemma sequential_matches:
  assumes "indicator_matches s" "decoding s = []" "decodes dec e"
  shows "indicator_matches (run dec (sequential e) s) \<and> decoding (run dec (sequential e) s) = []"
proof (cases e)
  case (Connect k ns)
  with assms(1,2) show ?thesis
    by (simp add: connect_begin_def Let_def indicator_matches_def)
next
  case (OnUserMedia i g)
  with assms(1,2) show ?thesis
    by (simp add: connect_resume_def indicator_matches_def)
next
  case OnOpen
  with assms(1,2) show ?thesis by (simp add: onopen_def Let_def indicator_matches_def)
next
  case (OnAudioProcess xs)
  with assms(1,2) show ?thesis by (simp add: onaudioprocess_def Let_def indicator_matches_def)
next
  case (OnMessage now m)
  with assms message_handled_matches[of s dec now m] show ?thesis
    by (simp del: step.simps run.simps)
next
  case (OnDecoded i)
  with assms(1,2) show ?thesis by simp
next
  case (OnEnded h)
  with assms(1,2) onended_matches[of s h] show ?thesis by (simp add: onended_def Let_def)
next
  case OnClose
  with assms(1,2) show ?thesis by (simp add: onclose_def indicator_matches_def)
next
  case OnError
  with assms(1,2) show ?thesis by (simp add: onerror_def indicator_matches_def)
next
  case Dismiss
  with assms(2) show ?thesis
    by (simp add: indicator_matches_def cleanupAudio_refs cleanupAudio_keeps)
qed

lemma sequential_run_matches:
  assumes "indicator_matches s" "decoding s = []" "list_all (decodes dec) es"
  shows "indicator_matches (run dec (concat (map sequential es)) s)"
  using assms
proof (induction es arbitrary: s)
  case Nil
  then show ?case by simp
next
  case (Cons e es)
  from Cons.prems have e: "decodes dec e" and es: "list_all (decodes dec) es"
    by simp_all
  from sequential_matches[OF Cons.prems(1,2) e]
  have 1: "indicator_matches (run dec (sequential e) s)"
    and 2: "decoding (run dec (sequential e) s) = []"
    by simp_all
  have "run dec (concat (map sequential (e # es))) s
      = run dec (concat (map sequential es)) (run dec (sequential e) s)"
    by (simp add: run_append)
  with Cons.IH[OF 1 2 es] show ?case by simp
qed

lemma arrival_raises:
  assumes "outputAudioContextRef s" "has_audio m"
  shows "isAIResponding (step dec (OnMessage now m) s)"
    "sourcesRef (step dec (OnMessage now m) s) = sourcesRef s"
  using assms by (simp_all add: onmessage_begin_def audio_arrived_fields)

lemma lowered_by:
  assumes "isAIResponding s" "\<not> isAIResponding (step dec e s)"
  shows "(\<exists>h. e = OnEnded h \<and> h < created s \<and> removeAll h (sourcesRef s) = [])
       \<or> (\<exists>now m. e = OnMessage now m \<and> interrupted m)
       \<or> (\<exists>i. e = OnDecoded i \<and> i < length (decoding s) \<and> interrupted (decoding s ! i))
       \<or> e = Dismiss"
proof (cases e)
  case (Connect k ns)
  with assms show ?thesis by (simp add: connect_begin_def Let_def split: if_splits)
next
  case (OnUserMedia i g)
  with assms show ?thesis by (simp add: connect_resume_def split: if_splits)
next
  case OnOpen
  with assms show ?thesis by (simp add: onopen_def Let_def split: if_splits)
next
  case (OnAudioProcess xs)
  with assms show ?thesis by (simp add: onaudioprocess_def Let_def)
next
  case (OnMessage now m)
  show ?thesis
  proof (cases "interrupted m")
    case True
    with OnMessage show ?thesis by simp
  next
    case False
    with assms(1) have "isAIResponding (onmessage_begin now m s)"
      by (simp add: onmessage_begin_def handle_interruption_def audio_arrived_fields)
    with assms(2) OnMessage show ?thesis by simp
  qed
next
  case (OnDecoded i)
  show ?thesis
  proof (cases "i < length (decoding s) \<and> interrupted (decoding s ! i)")
    case True
    with OnDecoded show ?thesis by simp
  next
    case False
    with assms(1) have "isAIResponding (step dec (OnDecoded i) s)"
      by (auto simp add: onmessage_resume_def handle_interruption_def schedule_source_fields
          split: option.splits)
    with assms(2) OnDecoded show ?thesis by simp
  qed
next
  case (OnEnded h)
  with assms have "h < created s" "removeAll h (sourcesRef s) = []"
    by (auto simp add: onended_def Let_def split: if_splits)
  with OnEnded show ?thesis by simp
next
  case OnClose
  with assms show ?thesis by (simp add: onclose_def)
next
  case OnError
  with assms show ?thesis by (simp add: onerror_def)
next
  case Dismiss
  then show ?thesis by simp
qed

lemma scheduling_keeps:
  assumes "i < length (decoding s)" "\<not> interrupted (decoding s ! i)"
  shows "isAIResponding (step dec (OnDecoded i) s) = isAIResponding s"
  using assms
  by (simp add: onmessage_resume_def handle_interruption_def schedule_source_fields
      split: option.splits)

text \<open>
  C5 as amended. In a session in which every message handler runs to its end before the
  next callback and every chunk decodes, the indicator is on after each callback
  exactly when the active set is not empty. In every session the indicator is raised
  when a non-empty chunk arrives while the output context exists, before its handle is
  added; the end of the decoding of a message without the interruption flag, which adds
  the handle, does not change it; and it is lowered only by an ended listener that
  leaves the set empty, by a message with the interruption flag, on its arrival or at
  the end of its decoding, or by the teardown.
\<close>

theorem indicator_follows_active_set:
  "indicator_matches initial
   \<and> (indicator_matches s \<and> decoding s = [] \<and> decodes dec e \<longrightarrow>
        indicator_matches (run dec (sequential e) s) \<and> decoding (run dec (sequential e) s) = [])
   \<and> (list_all (decodes dec) es \<longrightarrow>
        indicator_matches (run dec (concat (map sequential es)) initial))
   \<and> (outputAudioContextRef s \<and> has_audio m \<longrightarrow>
        isAIResponding (step dec (OnMessage now m) s)
        \<and> sourcesRef (step dec (OnMessage now m) s) = sourcesRef s)
   \<and> (i < length (decoding s) \<and> \<not> interrupted (decoding s ! i) \<longrightarrow>
        isAIResponding (step dec (OnDecoded i) s) = isAIResponding s)
   \<and> (isAIResponding s \<and> \<not> isAIResponding (step dec e s) \<longrightarrow>
        (\<exists>h. e = OnEnded h \<and> h < created s \<and> removeAll h (sourcesRef s) = [])
        \<or> (\<exists>now m. e = OnMessage now m \<and> interrupted m)
        \<or> (\<exists>i. e = OnDecoded i \<and> i < length (decoding s) \<and> interrupted (decoding s ! i))
        \<or> e = Dismiss)"
proof -
  have i: "indicator_matches initial" and d0: "decoding initial = []"
    by (simp_all add: indicator_matches_def initial_def)
  have st: "indicator_matches s \<and> decoding s = [] \<and> decodes dec e \<longrightarrow>
        indicator_matches (run dec (sequential e) s) \<and> decoding (run dec (sequential e) s) = []"
    using sequential_matches[of s dec e] by blast
  have r: "list_all (decodes dec) es \<longrightarrow>
        indicator_matches (run dec (concat (map sequential es)) initial)"
    using sequential_run_matches[OF i d0, of dec es] by blast
  have a: "outputAudioContextRef s \<and> has_audio m \<longrightarrow>
        isAIResponding (step dec (OnMessage now m) s)
        \<and> sourcesRef (step dec (OnMessage now m) s) = sourcesRef s"
    using arrival_raises[of s m dec now] by blast
  have k: "i < length (decoding s) \<and> \<not> interrupted (decoding s ! i) \<longrightarrow>
        isAIResponding (step dec (OnDecoded i) s) = isAIResponding s"
    using scheduling_keeps[of i s dec] by blast
  have l: "isAIResponding s \<and> \<not> isAIResponding (step dec e s) \<longrightarrow>
        (\<exists>h. e = OnEnded h \<and> h < created s \<and> removeAll h (sourcesRef s) = [])
        \<or> (\<exists>now m. e = OnMessage now m \<and> interrupted m)
        \<or> (\<exists>i. e = OnDecoded i \<and> i < length (decoding s) \<and> interrupted (decoding s ! i))
        \<or> e = Dismiss"
    using lowered_by[of s dec e] by blast
  from i st r a k l show ?thesis
    by (intro conjI) assumption+
qed

theorem indicator_follows_active_set_witness:
  "list_all (decodes demo_decoder) one_chunk_session
   \<and> indicator_matches (run demo_decoder (concat (map sequential one_chunk_session)) initial)
   \<and> indicator_matches (run demo_decoder
        (concat (map sequential (butlast one_chunk_session))) initial)"
proof -
  have d: "list_all (decodes demo_decoder) one_chunk_session"
    "list_all (decodes demo_decoder) (butlast one_chunk_session)"
    by (simp_all add: one_chunk_session_def chunk_message_def demo_decoder_def)
  note T = indicator_follows_active_set[where dec = demo_decoder,
      THEN conjunct2, THEN conjunct2, THEN conjunct1, rule_format]
  from T[OF d(1)] T[OF d(2)] d(1) show ?thesis
    by (intro conjI)
qed

text \<open>
  The claim fails as stated. When a chunk arrives in the connected dialog the indicator
  is on while the active set is still empty. And when an interruption arrives while the
  chunk is being decoded, the end of the decoding adds the source with the indicator
  off: every handler has run to its end, a source is active and the indicator is off.
\<close>

theorem indicator_counterexample:
  "isAIResponding (step demo_decoder (OnMessage 0 (chunk_message ''CCCC'')) connected)
   \<and> sourcesRef (step demo_decoder (OnMessage 0 (chunk_message ''CCCC'')) connected) = []
   \<and> decoding (run demo_decoder
        [OnMessage 0 (chunk_message ''CCCC''), OnMessage 1 interruption_message, OnDecoded 0]
        connected) = []
   \<and> sourcesRef (run demo_decoder
        [OnMessage 0 (chunk_message ''CCCC''), OnMessage 1 interruption_message, OnDecoded 0]
        connected) = [0]
   \<and> \<not> isAIResponding (run demo_decoder
        [OnMessage 0 (chunk_message ''CCCC''), OnMessage 1 interruption_message, OnDecoded 0]
        connected)"
proof -
  let ?s1 = "step demo_decoder (OnMessage 0 (chunk_message ''CCCC'')) connected"
  have c: "outputAudioContextRef connected" "''CCCC'' \<noteq> []"
    by (simp_all add: connected_fields)
  note A = arrive_chunk_fields[OF c, of demo_decoder 0]
  have dec1: "0 < length (decoding (interrupt ?s1))"
    "decoding (interrupt ?s1) ! 0 = chunk_message ''CCCC''"
    by (simp_all add: interrupt_fields A connected_fields del: step.simps)
  have dec1': "demo_decoder ''CCCC'' = Some 1"
    by (simp add: demo_decoder_def)
  note D = decoded_chunk_fields[of 0 "interrupt ?s1" "''CCCC''" demo_decoder 1, OF dec1 dec1']
  have cr: "created ?s1 = 0"
    by (simp add: onmessage_begin_def has_audio_def chunk_message_def audio_arrived_fields
        connected_fields)
  have r: "run demo_decoder
        [OnMessage 0 (chunk_message ''CCCC''), OnMessage 1 interruption_message, OnDecoded 0]
        connected = step demo_decoder (OnDecoded 0) (interrupt ?s1)"
    by (simp add: step_interruption_only del: step.simps)
  show ?thesis
    unfolding r D using A(4,5) cr
    by (simp add: interrupt_fields A connected_fields without_def set_add_def del: step.simps)
qed

section \<open>The speaking indicator\<close>

lemma speaking_computed:
  "isSpeaking (onaudioprocess xs s)
     = (xs \<noteq> [] \<and> double_div (foldl (\<lambda>a b. double_add a \<bar>b\<bar>) 0 xs) (real (length xs))
          > round_double (1 / 100))"
  by (simp add: onaudioprocess_def Let_def threshold_def)

lemma foldl_constant:
  assumes "\<forall>x\<in>set xs. \<bar>x\<bar> = a" "\<forall>k\<le>j + length xs. round_double (real k * a) = real k * a"
  shows "foldl (\<lambda>a b. double_add a \<bar>b\<bar>) (real j * a) xs = real (j + length xs) * a"
  using assms
proof (induction xs arbitrary: j)
  case Nil
  then show ?case by simp
next
  case (Cons x xs)
  from Cons.prems(1) have x: "\<bar>x\<bar> = a" and xs: "\<forall>x\<in>set xs. \<bar>x\<bar> = a"
    by simp_all
  have sum: "real j * a + a = real (Suc j) * a"
    by (simp add: algebra_simps)
  have "Suc j \<le> j + length (x # xs) \<longrightarrow> round_double (real (Suc j) * a) = real (Suc j) * a"
    using Cons.prems(2) by (rule spec)
  moreover have "Suc j \<le> j + length (x # xs)"
    by simp
  ultimately have "round_double (real (Suc j) * a) = real (Suc j) * a"
    by (rule mp)
  then have step: "double_add (real j * a) \<bar>x\<bar> = real (Suc j) * a"
    unfolding double_add_def x sum .
  have "\<forall>k\<le>Suc j + length xs. round_double (real k * a) = real k * a"
    using Cons.prems(2) by simp
  from Cons.IH[OF xs this] step show ?case
    by simp
qed

lemma mean_constant:
  assumes "xs \<noteq> []" "\<forall>x\<in>set xs. \<bar>x\<bar> = a"
    "\<forall>k\<le>length xs. round_double (real k * a) = real k * a"
  shows "double_div (foldl (\<lambda>a b. double_add a \<bar>b\<bar>) 0 xs) (real (length xs)) = a"
proof -
  have "foldl (\<lambda>a b. double_add a \<bar>b\<bar>) (real 0 * a) xs = real (0 + length xs) * a"
    using assms(2,3) by (intro foldl_constant) simp_all
  then have sum: "foldl (\<lambda>a b. double_add a \<bar>b\<bar>) 0 xs = real (length xs) * a"
    by simp
  have one: "round_double a = a"
    using assms(1,3) by (cases xs) (auto dest: spec[of _ 1])
  from assms(1) have "real (length xs) * a / real (length xs) = a"
    by simp
  with sum one show ?thesis
    by (simp add: double_div_def)
qed

lemma foldl_exact:
  assumes "\<forall>k\<le>length xs. round_double (\<Sum>x\<leftarrow>take k xs. \<bar>x\<bar>) = (\<Sum>x\<leftarrow>take k xs. \<bar>x\<bar>)"
  shows "foldl (\<lambda>a b. double_add a \<bar>b\<bar>) 0 xs = (\<Sum>x\<leftarrow>xs. \<bar>x\<bar>)"
  using assms
proof (induction xs rule: rev_induct)
  case Nil
  then show ?case by simp
next
  case (snoc x xs)
  have "\<forall>k\<le>length xs. round_double (\<Sum>x\<leftarrow>take k xs. \<bar>x\<bar>) = (\<Sum>x\<leftarrow>take k xs. \<bar>x\<bar>)"
  proof (intro allI impI)
    fix k
    assume k: "k \<le> length xs"
    then have "k \<le> length (xs @ [x])" by simp
    with snoc.prems
    have "round_double (\<Sum>x\<leftarrow>take k (xs @ [x]). \<bar>x\<bar>) = (\<Sum>x\<leftarrow>take k (xs @ [x]). \<bar>x\<bar>)"
      by blast
    with k show "round_double (\<Sum>x\<leftarrow>take k xs. \<bar>x\<bar>) = (\<Sum>x\<leftarrow>take k xs. \<bar>x\<bar>)"
      by simp
  qed
  then have IH: "foldl (\<lambda>a b. double_add a \<bar>b\<bar>) 0 xs = (\<Sum>x\<leftarrow>xs. \<bar>x\<bar>)"
    by (rule snoc.IH)
  have "length (xs @ [x]) \<le> length (xs @ [x])" by simp
  with snoc.prems
  have "round_double (\<Sum>x\<leftarrow>take (length (xs @ [x])) (xs @ [x]). \<bar>x\<bar>)
      = (\<Sum>x\<leftarrow>take (length (xs @ [x])) (xs @ [x]). \<bar>x\<bar>)"
    by blast
  then have full: "round_double ((\<Sum>x\<leftarrow>xs. \<bar>x\<bar>) + \<bar>x\<bar>) = (\<Sum>x\<leftarrow>xs. \<bar>x\<bar>) + \<bar>x\<bar>"
    by simp
  have "foldl (\<lambda>a b. double_add a \<bar>b\<bar>) 0 (xs @ [x])
      = double_add (foldl (\<lambda>a b. double_add a \<bar>b\<bar>) 0 xs) \<bar>x\<bar>"
    by simp
  also have "\<dots> = double_add (\<Sum>x\<leftarrow>xs. \<bar>x\<bar>) \<bar>x\<bar>"
    by (simp only: IH)
  also have "\<dots> = (\<Sum>x\<leftarrow>xs. \<bar>x\<bar>) + \<bar>x\<bar>"
    by (simp only: double_add_def full)
  finally show ?case
    by simp
qed

lemma mean_exact:
  assumes "\<forall>k\<le>length xs. round_double (\<Sum>x\<leftarrow>take k xs. \<bar>x\<bar>) = (\<Sum>x\<leftarrow>take k xs. \<bar>x\<bar>)"
    and "round_double (mean_abs xs) = mean_abs xs"
  shows "double_div (foldl (\<lambda>a b. double_add a \<bar>b\<bar>) 0 xs) (real (length xs)) = mean_abs xs"
  unfolding foldl_exact[OF assms(1)] double_div_def
  using assms(2) by (simp add: mean_abs_def)

text \<open>
  C6 as amended. At every capture tick the speaking indicator is computed from the block
  alone: the absolute values are summed from left to right, each sum rounded to a
  double, the sum is divided by the block length, rounded again, and the indicator is on
  exactly when this mean exceeds the double nearest to 0.01; an empty block is silent.
  The state that the tick finds does not enter, so two ticks with the same block yield
  the same value. For a non-empty block of constant absolute amplitude \<open>a\<close> whose
  multiples up to the block length are doubles, the computed mean is \<open>a\<close> and the
  indicator is on exactly when \<open>a\<close> exceeds the threshold. For a non-empty block in
  which the sum of the absolute values of every initial part and the mean absolute
  amplitude are doubles, so that no sum is rounded, the indicator is on exactly when the
  mean absolute amplitude exceeds the threshold.
\<close>

theorem speaking_gate:
  "isSpeaking (onaudioprocess xs s)
     = (xs \<noteq> [] \<and> double_div (foldl (\<lambda>a b. double_add a \<bar>b\<bar>) 0 xs) (real (length xs))
          > round_double (1 / 100))
   \<and> isSpeaking (onaudioprocess xs s) = isSpeaking (onaudioprocess xs s')
   \<and> (xs \<noteq> [] \<and> (\<forall>x\<in>set xs. \<bar>x\<bar> = a)
        \<and> (\<forall>k\<le>length xs. round_double (real k * a) = real k * a) \<longrightarrow>
        isSpeaking (onaudioprocess xs s) = (a > round_double (1 / 100)))
   \<and> (xs \<noteq> []
        \<and> (\<forall>k\<le>length xs. round_double (\<Sum>x\<leftarrow>take k xs. \<bar>x\<bar>) = (\<Sum>x\<leftarrow>take k xs. \<bar>x\<bar>))
        \<and> round_double (mean_abs xs) = mean_abs xs \<longrightarrow>
        isSpeaking (onaudioprocess xs s) = (mean_abs xs > round_double (1 / 100)))"
proof -
  have 1: "isSpeaking (onaudioprocess xs s)
     = (xs \<noteq> [] \<and> double_div (foldl (\<lambda>a b. double_add a \<bar>b\<bar>) 0 xs) (real (length xs))
          > round_double (1 / 100))"
    by (rule speaking_computed)
  have 2: "isSpeaking (onaudioprocess xs s) = isSpeaking (onaudioprocess xs s')"
    by (simp only: speaking_computed)
  have 3: "xs \<noteq> [] \<and> (\<forall>x\<in>set xs. \<bar>x\<bar> = a)
        \<and> (\<forall>k\<le>length xs. round_double (real k * a) = real k * a) \<longrightarrow>
        isSpeaking (onaudioprocess xs s) = (a > round_double (1 / 100))"
  proof
    assume h: "xs \<noteq> [] \<and> (\<forall>x\<in>set xs. \<bar>x\<bar> = a)
        \<and> (\<forall>k\<le>length xs. round_double (real k * a) = real k * a)"
    then have "double_div (foldl (\<lambda>a b. double_add a \<bar>b\<bar>) 0 xs) (real (length xs)) = a"
      using mean_constant[of xs a] by blast
    with h show "isSpeaking (onaudioprocess xs s) = (a > round_double (1 / 100))"
      by (simp only: speaking_computed) simp
  qed
  have 4: "xs \<noteq> []
        \<and> (\<forall>k\<le>length xs. round_double (\<Sum>x\<leftarrow>take k xs. \<bar>x\<bar>) = (\<Sum>x\<leftarrow>take k xs. \<bar>x\<bar>))
        \<and> round_double (mean_abs xs) = mean_abs xs \<longrightarrow>
        isSpeaking (onaudioprocess xs s) = (mean_abs xs > round_double (1 / 100))"
  proof
    assume h: "xs \<noteq> []
        \<and> (\<forall>k\<le>length xs. round_double (\<Sum>x\<leftarrow>take k xs. \<bar>x\<bar>) = (\<Sum>x\<leftarrow>take k xs. \<bar>x\<bar>))
        \<and> round_double (mean_abs xs) = mean_abs xs"
    then have "double_div (foldl (\<lambda>a b. double_add a \<bar>b\<bar>) 0 xs) (real (length xs)) = mean_abs xs"
      using mean_exact[of xs] by blast
    with h show "isSpeaking (onaudioprocess xs s) = (mean_abs xs > round_double (1 / 100))"
      by (simp only: speaking_computed) simp
  qed
  from 1 2 3 4 show ?thesis
    by (intro conjI)
qed

lemma sixty_fourth:
  "round_double (0 * (1 / 64)) = 0 * (1 / 64)" "round_double (1 * (1 / 64)) = 1 * (1 / 64)"
  "round_double (2 * (1 / 64)) = 2 * (1 / 64)" "1 / 64 > round_double (1 / 100)"
  by code_simp+

theorem speaking_gate_witness:
  "isSpeaking (onaudioprocess [1 / 64, - (1 / 64)] initial)"
proof -
  have k: "\<forall>k\<le>length [1 / 64, - (1 / 64) :: real]. round_double (real k * (1 / 64)) = real k * (1 / 64)"
  proof (intro allI impI)
    fix k :: nat
    assume "k \<le> length [1 / 64, - (1 / 64) :: real]"
    then have "k = 0 \<or> k = 1 \<or> k = 2" by auto
    then show "round_double (real k * (1 / 64)) = real k * (1 / 64)"
      using sixty_fourth(1-3) by auto
  qed
  have h: "[1 / 64, - (1 / 64) :: real] \<noteq> [] \<and> (\<forall>x\<in>set [1 / 64, - (1 / 64) :: real]. \<bar>x\<bar> = 1 / 64)
      \<and> (\<forall>k\<le>length [1 / 64, - (1 / 64) :: real].
            round_double (real k * (1 / 64)) = real k * (1 / 64))"
    using k by simp
  note T = speaking_gate[where xs = "[1 / 64, - (1 / 64)]" and s = initial and a = "1 / 64",
      THEN conjunct2, THEN conjunct2, THEN conjunct1, rule_format, OF h]
  from T sixty_fourth(4) show ?thesis
    by simp
qed

lemma block_steps:
  "double_add 0 (5368709 / 2 ^ 26) = 5368709 / 2 ^ 26"
  "double_add (5368709 / 2 ^ 26) (4026531 / 2 ^ 51) = 180143985094819 / 2 ^ 51"
  "double_add (180143985094819 / 2 ^ 51) (27 / 2 ^ 56) = 5764607523034235 / 2 ^ 56"
  "double_add (5764607523034235 / 2 ^ 56) (1 / 2 ^ 58) = 5764607523034235 / 2 ^ 56"
  "double_add (5764607523034235 / 2 ^ 56) 0 = 5764607523034235 / 2 ^ 56"
  "double_add 0 (1 / 2 ^ 58) = 1 / 2 ^ 58"
  "double_add (1 / 2 ^ 58) (1 / 2 ^ 58) = 1 / 2 ^ 57"
  "double_add (1 / 2 ^ 57) (1 / 2 ^ 58) = 3 / 2 ^ 58"
  "double_add (3 / 2 ^ 58) (1 / 2 ^ 58) = 1 / 2 ^ 56"
  "double_add (1 / 2 ^ 56) (5368709 / 2 ^ 26) = 5764607394185217 / 2 ^ 56"
  "double_add (5764607394185217 / 2 ^ 56) (4026531 / 2 ^ 51) = 5764607523034209 / 2 ^ 56"
  "double_add (5764607523034209 / 2 ^ 56) (27 / 2 ^ 56) = 1441151880758559 / 2 ^ 54"
  "double_add (1441151880758559 / 2 ^ 54) 0 = 1441151880758559 / 2 ^ 54"
  by (simp_all only: double_add_def) code_simp+

lemma block_means:
  "double_div (5764607523034235 / 2 ^ 56) 8 = round_double (1 / 100)"
  "double_div (1441151880758559 / 2 ^ 54) 8 = 1441151880758559 / 2 ^ 57"
  "(1441151880758559 / 2 ^ 57 :: real) > round_double (1 / 100)"
  "round_double (1 / 100) > 1 / 100"
  by (simp_all only: double_div_def) code_simp+

lemma block_abs:
  "\<bar>5368709 / 2 ^ 26 :: real\<bar> = 5368709 / 2 ^ 26" "\<bar>4026531 / 2 ^ 51 :: real\<bar> = 4026531 / 2 ^ 51"
  "\<bar>27 / 2 ^ 56 :: real\<bar> = 27 / 2 ^ 56" "\<bar>1 / 2 ^ 58 :: real\<bar> = 1 / 2 ^ 58" "\<bar>0 :: real\<bar> = 0"
  by simp_all

lemma block_sums:
  "foldl (\<lambda>a b. double_add a \<bar>b\<bar>) 0 small_last = 5764607523034235 / 2 ^ 56"
  "foldl (\<lambda>a b. double_add a \<bar>b\<bar>) 0 small_first = 1441151880758559 / 2 ^ 54"
  by (simp_all only: small_last_def small_first_def foldl.simps block_abs block_steps)

lemma block_lengths:
  "real (length small_last) = 8" "real (length small_first) = 8"
  "small_last \<noteq> []" "small_first \<noteq> []"
  by (simp_all add: small_last_def small_first_def)

lemma block_exact:
  "mean_abs small_last = mean_abs small_first"
  "mean_abs small_last = 1441151880758559 / 2 ^ 57"
  by (simp_all add: mean_abs_def small_last_def small_first_def)

text \<open>
  The claim fails as stated: the two blocks hold the same samples in two orders, so
  their mean absolute amplitude is the same, and it exceeds the threshold; the tick
  reports speaking for the one and silence for the other.
\<close>

theorem speaking_counterexample:
  "mean_abs small_last = mean_abs small_first
   \<and> mean_abs small_last > round_double (1 / 100)
   \<and> mean_abs small_last > 1 / 100
   \<and> isSpeaking (onaudioprocess small_first initial)
   \<and> \<not> isSpeaking (onaudioprocess small_last initial)"
proof -
  have above: "mean_abs small_last > round_double (1 / 100)"
    unfolding block_exact(2) by (rule block_means(3))
  with block_means(4) have exact: "mean_abs small_last > 1 / 100"
    by simp
  have "isSpeaking (onaudioprocess small_first initial)"
    unfolding speaking_computed block_sums block_lengths(2) block_means(2)
    using block_means(3) block_lengths(4) by simp
  moreover have "\<not> isSpeaking (onaudioprocess small_last initial)"
    unfolding speaking_computed block_sums block_lengths(1) block_means(1)
    by simp
  ultimately show ?thesis
    using above exact block_exact(1) by simp
qed

section \<open>The context payload\<close>

lemma contextSummary_take: "contextSummary (take 50 notes) = contextSummary notes"
  by (simp add: contextSummary_def slice0_def)

lemma join_length: "length (join sep xs) \<le> (\<Sum>x\<leftarrow>xs. length x + length sep)"
  by (induction sep xs rule: join.induct) simp_all

lemma sum_list_bound:
  "(\<forall>x\<in>set xs. f x \<le> (b::nat)) \<Longrightarrow> (\<Sum>x\<leftarrow>xs. f x) \<le> length xs * b"
  by (induction xs) auto

lemma NoteType_value_length: "length (NoteType_value t) \<le> 7"
  by (cases t) simp_all

lemma context_line_length:
  assumes "length (note_title n) \<le> L" "length (note_summary n) \<le> L"
  shows "length (context_line n) \<le> 2 * L + 12"
  using assms NoteType_value_length[of "note_type n"]
  by (simp add: context_line_def toUpperCase_def)

lemma contextSummary_length:
  assumes "\<forall>n\<in>set (take 50 notes). length (note_title n) \<le> L \<and> length (note_summary n) \<le> L"
  shows "length (contextSummary notes) \<le> 50 * (2 * L + 13)"
proof -
  let ?ls = "map context_line (take 50 notes)"
  have each: "\<forall>x\<in>set ?ls. length x + length newline \<le> 2 * L + 13"
    using assms context_line_length by (fastforce simp add: newline_def)
  have "length (contextSummary notes) \<le> (\<Sum>x\<leftarrow>?ls. length x + length newline)"
    unfolding contextSummary_def slice0_def by (rule join_length)
  also have "\<dots> \<le> length ?ls * (2 * L + 13)"
    using each by (rule sum_list_bound)
  also have "\<dots> \<le> 50 * (2 * L + 13)"
    by (rule mult_le_mono1) simp
  finally show ?thesis .
qed

lemma context_line_digest: "digest n = digest n' \<Longrightarrow> context_line n = context_line n'"
  by (simp add: digest_def context_line_def)

lemma contextSummary_digest:
  assumes "map digest (take 50 notes) = map digest (take 50 notes')"
  shows "contextSummary notes = contextSummary notes'"
proof -
  have lines: "map context_line xs = map context_line ys"
    if "map digest xs = map digest ys" for xs ys
    using that
  proof (induction xs arbitrary: ys)
    case Nil
    then show ?case by simp
  next
    case (Cons x xs)
    then obtain y ys' where ys: "ys = y # ys'" by (cases ys) auto
    with Cons.prems have hd: "digest x = digest y" and tl: "map digest xs = map digest ys'"
      by simp_all
    have "context_line x = context_line y"
      using hd by (rule context_line_digest)
    moreover have "map context_line xs = map context_line ys'"
      using tl by (rule Cons.IH)
    ultimately show ?case
      by (simp add: ys)
  qed
  have "map context_line (take 50 notes) = map context_line (take 50 notes')"
    using assms by (rule lines)
  then show ?thesis
    by (simp only: contextSummary_def slice0_def)
qed

lemma addNotes_rev: "addNotes ns prev = rev ns @ prev"
  unfolding addNotes_def
  by (induction ns arbitrary: prev) (simp_all add: addNote_def)

lemma newest_fifty:
  assumes "50 \<le> length ns"
  shows "take 50 (addNotes ns prev) = rev (drop (length ns - 50) ns)"
proof -
  have "take 50 (rev ns @ prev) = take 50 (rev ns)"
    using assms by simp
  also have "\<dots> = rev (drop (length ns - 50) ns)"
    by (simp add: take_rev)
  finally show ?thesis
    by (simp only: addNotes_rev)
qed

lemma contextSummary_newest:
  assumes "50 \<le> length ns"
  shows "contextSummary (addNotes ns prev) = contextSummary (rev (drop (length ns - 50) ns))"
proof -
  have "contextSummary (addNotes ns prev) = contextSummary (take 50 (addNotes ns prev))"
    by (simp only: contextSummary_take)
  then show ?thesis
    by (simp only: newest_fifty[OF assms])
qed

lemma upper_values:
  "toUpperCase (NoteType_value THOUGHT) = ''THOUGHT''"
  "toUpperCase (NoteType_value ARTICLE) = ''ARTICLE''"
  "toUpperCase (NoteType_value CHAT) = ''CHAT''"
  "toUpperCase (NoteType_value UNKNOWN) = ''UNKNOWN''"
  by (simp_all add: toUpperCase_def upper_char_def)

lemma connect_registers:
  assumes "\<not> falsy apiKey"
  shows "micRequests (step dec (Connect apiKey notes) s) = micRequests s @ [systemInstruction notes]"
    "effects (step dec (Connect apiKey notes) s) = effects s"
  using assms by (simp_all add: connect_begin_def Let_def)

lemma connect_granted:
  assumes "i < length (micRequests s)"
  shows "effects (step dec (OnUserMedia i True) s) = effects s @ [LiveConnect (micRequests s ! i)]"
  using assms by (simp add: connect_resume_def)

lemma connect_sends:
  assumes "\<not> falsy apiKey" "micRequests s = []"
  shows "effects (run dec [Connect apiKey notes, OnUserMedia 0 True] s)
           = effects s @ [LiveConnect (systemInstruction notes)]"
proof -
  let ?s1 = "step dec (Connect apiKey notes) s"
  have 1: "micRequests ?s1 = [systemInstruction notes]" "effects ?s1 = effects s"
    using connect_registers[OF assms(1), of dec "notes" s] assms(2) by simp_all
  then have "0 < length (micRequests ?s1)" by simp
  then have "effects (step dec (OnUserMedia 0 True) ?s1)
      = effects ?s1 @ [LiveConnect (micRequests ?s1 ! 0)]"
    by (rule connect_granted)
  with 1 show ?thesis
    by (simp del: step.simps)
qed

text \<open>
  C8. The context payload is the system instruction: the fixed text around the context
  summary, which holds one line for each of the first fifty notes of the list, in their
  order, separated by line feeds; a line is made of the type in capitals, the title and
  the summary of the note, and of nothing else of it. The store puts each new note in
  front, so the list is ordered from the newest note, and once fifty notes were added
  the payload is built from the fifty added last, the newest first. The notes after the
  fiftieth do not change the payload. When the titles and summaries of the first fifty
  notes are at most \<open>L\<close> characters long the summary is at most \<open>50 * (2 * L + 13)\<close>
  characters long, however many notes there are. With a key, no other call waiting for
  the microphone and the microphone granted, opening the session sends this system
  instruction.
\<close>

theorem context_payload_bounded:
  "contextSummary notes
     = join [CHR 0x0A]
         (map (\<lambda>n. ''['' @ toUpperCase (NoteType_value (note_type n)) @ ''] '' @ note_title n
                   @ '': '' @ note_summary n)
            (take 50 notes))
   \<and> contextSummary [] = []
   \<and> contextSummary [n]
       = ''['' @ toUpperCase (NoteType_value (note_type n)) @ ''] '' @ note_title n @ '': ''
           @ note_summary n
   \<and> (length ms < 49 \<longrightarrow>
        contextSummary (n # m # ms)
          = ''['' @ toUpperCase (NoteType_value (note_type n)) @ ''] '' @ note_title n @ '': ''
              @ note_summary n @ [CHR 0x0A] @ contextSummary (m # ms))
   \<and> map (\<lambda>t. toUpperCase (NoteType_value t)) [THOUGHT, ARTICLE, CHAT, UNKNOWN]
       = [''THOUGHT'', ''ARTICLE'', ''CHAT'', ''UNKNOWN'']
   \<and> systemInstruction notes
     = ''You are my personal WeChat assistant. I have sent you various articles, thoughts, and chats this week. ''
       @ [CHR 0x0A]
       @ ''      Your goal is to discuss these with me, help me reflect, or answer questions about them.''
       @ [CHR 0x0A] @ ''      '' @ [CHR 0x0A]
       @ ''      Here is a summary of my recent content:'' @ [CHR 0x0A] @ ''      ''
       @ contextSummary notes
       @ [CHR 0x0A] @ ''      '' @ [CHR 0x0A]
       @ ''      Be concise, friendly, and conversational. Spoken language style.''
   \<and> contextSummary notes = contextSummary (take 50 notes)
   \<and> systemInstruction notes = systemInstruction (take 50 notes)
   \<and> (map digest (take 50 notes) = map digest (take 50 notes') \<longrightarrow>
        systemInstruction notes = systemInstruction notes')
   \<and> ((\<forall>n\<in>set (take 50 notes). length (note_title n) \<le> L \<and> length (note_summary n) \<le> L) \<longrightarrow>
        length (contextSummary notes) \<le> 50 * (2 * L + 13))
   \<and> addNotes ns prev = rev ns @ prev
   \<and> (50 \<le> length ns \<longrightarrow>
        systemInstruction (addNotes ns prev)
          = systemInstruction (rev (drop (length ns - 50) ns)))
   \<and> (\<not> falsy apiKey \<and> micRequests s = [] \<longrightarrow>
        effects (run dec [Connect apiKey notes, OnUserMedia 0 True] s)
          = effects s @ [LiveConnect (systemInstruction notes)])"
proof -
  have 1: "contextSummary notes
     = join [CHR 0x0A]
         (map (\<lambda>n. ''['' @ toUpperCase (NoteType_value (note_type n)) @ ''] '' @ note_title n
                   @ '': '' @ note_summary n)
            (take 50 notes))"
    by (simp add: contextSummary_def slice0_def newline_def context_line_def[abs_def])
  have e0: "contextSummary [] = []"
    by (simp add: contextSummary_def slice0_def)
  have e1: "contextSummary [n]
       = ''['' @ toUpperCase (NoteType_value (note_type n)) @ ''] '' @ note_title n @ '': ''
           @ note_summary n"
    by (simp add: contextSummary_def slice0_def context_line_def)
  have e2: "length ms < 49 \<longrightarrow>
        contextSummary (n # m # ms)
          = ''['' @ toUpperCase (NoteType_value (note_type n)) @ ''] '' @ note_title n @ '': ''
              @ note_summary n @ [CHR 0x0A] @ contextSummary (m # ms)"
    by (simp add: contextSummary_def slice0_def context_line_def newline_def)
  have 2: "map (\<lambda>t. toUpperCase (NoteType_value t)) [THOUGHT, ARTICLE, CHAT, UNKNOWN]
       = [''THOUGHT'', ''ARTICLE'', ''CHAT'', ''UNKNOWN'']"
    by (simp only: list.map upper_values)
  have 3: "systemInstruction notes
     = ''You are my personal WeChat assistant. I have sent you various articles, thoughts, and chats this week. ''
       @ [CHR 0x0A]
       @ ''      Your goal is to discuss these with me, help me reflect, or answer questions about them.''
       @ [CHR 0x0A] @ ''      '' @ [CHR 0x0A]
       @ ''      Here is a summary of my recent content:'' @ [CHR 0x0A] @ ''      ''
       @ contextSummary notes
       @ [CHR 0x0A] @ ''      '' @ [CHR 0x0A]
       @ ''      Be concise, friendly, and conversational. Spoken language style.''"
    by (simp only: systemInstruction_def instruction_head_def instruction_tail_def newline_def
        append_assoc)
  have 4: "contextSummary notes = contextSummary (take 50 notes)"
    by (simp add: contextSummary_take)
  then have 5: "systemInstruction notes = systemInstruction (take 50 notes)"
    by (simp add: systemInstruction_def)
  have 6: "map digest (take 50 notes) = map digest (take 50 notes') \<longrightarrow>
        systemInstruction notes = systemInstruction notes'"
    using contextSummary_digest[of "notes" notes']
    by (simp add: systemInstruction_def)
  have 7: "(\<forall>n\<in>set (take 50 notes). length (note_title n) \<le> L \<and> length (note_summary n) \<le> L) \<longrightarrow>
        length (contextSummary notes) \<le> 50 * (2 * L + 13)"
    using contextSummary_length[of "notes" L] by blast
  have 8: "addNotes ns prev = rev ns @ prev"
    by (rule addNotes_rev)
  have 9: "50 \<le> length ns \<longrightarrow>
        systemInstruction (addNotes ns prev)
          = systemInstruction (rev (drop (length ns - 50) ns))"
    using contextSummary_newest[of ns prev] by (simp add: systemInstruction_def)
  have 10: "\<not> falsy apiKey \<and> micRequests s = [] \<longrightarrow>
        effects (run dec [Connect apiKey notes, OnUserMedia 0 True] s)
          = effects s @ [LiveConnect (systemInstruction notes)]"
    using connect_sends[of apiKey s dec "notes"] by blast
  from 1 e0 e1 e2 2 3 4 5 6 7 8 9 10 show ?thesis
    by (intro conjI) assumption+
qed

lemma two_notes:
  "contextSummary [newer_note, sample_note]
     = ''[THOUGHT] Idea: New.'' @ [CHR 0x0A] @ ''[ARTICLE] Title: Sum.''"
  by (simp add: contextSummary_def slice0_def context_line_def newer_note_def sample_note_def
      toUpperCase_def upper_char_def newline_def)

theorem context_payload_bounded_witness:
  "length (contextSummary (replicate 1000 sample_note)) \<le> 50 * (2 * 5 + 13)
   \<and> systemInstruction (addNotes (replicate 1000 sample_note) [newer_note])
       = systemInstruction (rev (drop (length (replicate 1000 sample_note) - 50)
           (replicate 1000 sample_note)))
   \<and> effects (run demo_decoder
        [Connect (Some ''key'') (replicate 1000 sample_note), OnUserMedia 0 True] initial)
       = effects initial @ [LiveConnect (systemInstruction (replicate 1000 sample_note))]
   \<and> contextSummary [newer_note, sample_note]
       = ''[THOUGHT] Idea: New.'' @ [CHR 0x0A] @ ''[ARTICLE] Title: Sum.''"
proof -
  note T = context_payload_bounded[where ?notes = "replicate 1000 sample_note" and L = 5
      and apiKey = "Some ''key''" and s = initial and ns = "replicate 1000 sample_note"
      and prev = "[newer_note]" and dec = demo_decoder]
  have h: "\<forall>n\<in>set (take 50 (replicate 1000 sample_note)).
      length (note_title n) \<le> 5 \<and> length (note_summary n) \<le> 5"
    by (auto dest!: in_set_takeD simp add: sample_note_def)
  have k: "\<not> falsy (Some ''key'') \<and> micRequests initial = []"
    by (simp add: falsy_def initial_def)
  have n: "50 \<le> length (replicate 1000 sample_note)"
    by simp
  have six: "(\<forall>n\<in>set (take 50 (replicate 1000 sample_note)).
      length (note_title n) \<le> 5 \<and> length (note_summary n) \<le> 5) \<longrightarrow>
      length (contextSummary (replicate 1000 sample_note)) \<le> 50 * (2 * 5 + 13)"
    by (rule T[THEN conjunct2, THEN conjunct2, THEN conjunct2, THEN conjunct2, THEN conjunct2,
          THEN conjunct2, THEN conjunct2, THEN conjunct2, THEN conjunct2, THEN conjunct1])
  have nine: "50 \<le> length (replicate 1000 sample_note) \<longrightarrow>
      systemInstruction (addNotes (replicate 1000 sample_note) [newer_note])
       = systemInstruction (rev (drop (length (replicate 1000 sample_note) - 50)
           (replicate 1000 sample_note)))"
    by (rule T[THEN conjunct2, THEN conjunct2, THEN conjunct2, THEN conjunct2, THEN conjunct2,
          THEN conjunct2, THEN conjunct2, THEN conjunct2, THEN conjunct2, THEN conjunct2,
          THEN conjunct2, THEN conjunct1])
  have ten: "\<not> falsy (Some ''key'') \<and> micRequests initial = [] \<longrightarrow>
      effects (run demo_decoder
        [Connect (Some ''key'') (replicate 1000 sample_note), OnUserMedia 0 True] initial)
       = effects initial @ [LiveConnect (systemInstruction (replicate 1000 sample_note))]"
    by (rule T[THEN conjunct2, THEN conjunct2, THEN conjunct2, THEN conjunct2, THEN conjunct2,
          THEN conjunct2, THEN conjunct2, THEN conjunct2, THEN conjunct2, THEN conjunct2,
          THEN conjunct2, THEN conjunct2])
  from six h have a: "length (contextSummary (replicate 1000 sample_note)) \<le> 50 * (2 * 5 + 13)"
    by (rule mp)
  from nine n have b: "systemInstruction (addNotes (replicate 1000 sample_note) [newer_note])
       = systemInstruction (rev (drop (length (replicate 1000 sample_note) - 50)
           (replicate 1000 sample_note)))"
    by (rule mp)
  from ten k have c: "effects (run demo_decoder
        [Connect (Some ''key'') (replicate 1000 sample_note), OnUserMedia 0 True] initial)
       = effects initial @ [LiveConnect (systemInstruction (replicate 1000 sample_note))]"
    by (rule mp)
  from a b c two_notes show ?thesis
    by (intro conjI)
qed

section \<open>The classifier result\<close>

lemma map_response_type:
  assumes "map_response result text = Inr r"
  shows "res_type r = (if property result ''type'' = JStr ''chat'' then CHAT
                       else if property result ''type'' = JStr ''article'' then ARTICLE
                       else THOUGHT)"
  using assms by (auto simp add: map_response_def Let_def split: if_splits)

lemma map_response_fields:
  assumes "map_response result text = Inr r"
  shows "res_title r = or_else (property result ''title'') (JStr ''Untitled Note'')"
    "res_summary r = or_else (property result ''summary'') (JStr ''No summary available.'')"
    "res_content r = or_else (property result ''content'') (JStr text)"
    "res_sourceUrl r = or_else (property result ''sourceUrl'') JUndefined"
  using assms by (auto simp add: map_response_def Let_def split: if_splits)

lemma map_response_returns:
  assumes "result \<noteq> JNull" "result \<noteq> JUndefined"
  shows "\<exists>r. map_response result text = Inr r"
  using assms by (simp add: map_response_def Let_def)

lemma classifyContent_parsed:
  assumes "classifyContent apiKey gen parse text md = Inr r"
  shows "\<exists>response_text result. gen (classify_request text md) = Inr response_text
          \<and> parse (response_json response_text) = Some result
          \<and> map_response result text = Inr r"
  using assms
  by (auto simp add: classifyContent_def split: sum.splits option.splits)

text \<open>
  C9. Whenever classifyContent returns a result, the response was parsed to a value that
  the result is mapped from: its type is article or chat when the type of the response
  is that string and thought for anything else, so it is never unknown; a title, summary
  or content that the response lacks is replaced by "Untitled Note", by "No summary
  available." and by the caller's text. And classifyContent does return a result when
  the key is present, the call answers and the answer parses to a value other than
  null.
\<close>

theorem classifyContent_result:
  "(classifyContent apiKey gen parse text md = Inr r \<longrightarrow>
      res_type r \<in> {THOUGHT, ARTICLE, CHAT} \<and> res_type r \<noteq> UNKNOWN
      \<and> (\<exists>response_text result.
            gen (classify_request text md) = Inr response_text
          \<and> parse (response_json response_text) = Some result
          \<and> (property result ''type'' = JStr ''article'' \<longrightarrow> res_type r = ARTICLE)
          \<and> (property result ''type'' = JStr ''chat'' \<longrightarrow> res_type r = CHAT)
          \<and> (property result ''type'' \<noteq> JStr ''article''
               \<and> property result ''type'' \<noteq> JStr ''chat'' \<longrightarrow> res_type r = THOUGHT)
          \<and> (property result ''title'' = JUndefined \<longrightarrow> res_title r = JStr ''Untitled Note'')
          \<and> (property result ''summary'' = JUndefined \<longrightarrow>
                res_summary r = JStr ''No summary available.'')
          \<and> (property result ''content'' = JUndefined \<longrightarrow> res_content r = JStr text)))
   \<and> (\<not> falsy apiKey \<and> gen (classify_request text md) = Inr response_text
        \<and> parse (response_json response_text) = Some result
        \<and> result \<noteq> JNull \<and> result \<noteq> JUndefined \<longrightarrow>
        (\<exists>r. classifyContent apiKey gen parse text md = Inr r))"
proof (intro conjI impI)
  assume a: "classifyContent apiKey gen parse text md = Inr r"
  then obtain response_text result where g: "gen (classify_request text md) = Inr response_text"
    and p: "parse (response_json response_text) = Some result"
    and m: "map_response result text = Inr r"
    using classifyContent_parsed by blast
  note t = map_response_type[OF m]
  note f = map_response_fields[OF m]
  from t show "res_type r \<in> {THOUGHT, ARTICLE, CHAT}" by simp
  from t show "res_type r \<noteq> UNKNOWN" by simp
  have "(property result ''type'' = JStr ''article'' \<longrightarrow> res_type r = ARTICLE)
          \<and> (property result ''type'' = JStr ''chat'' \<longrightarrow> res_type r = CHAT)
          \<and> (property result ''type'' \<noteq> JStr ''article''
               \<and> property result ''type'' \<noteq> JStr ''chat'' \<longrightarrow> res_type r = THOUGHT)
          \<and> (property result ''title'' = JUndefined \<longrightarrow> res_title r = JStr ''Untitled Note'')
          \<and> (property result ''summary'' = JUndefined \<longrightarrow>
                res_summary r = JStr ''No summary available.'')
          \<and> (property result ''content'' = JUndefined \<longrightarrow> res_content r = JStr text)"
    using t f by (simp add: or_else_def)
  with g p show "\<exists>response_text result.
            gen (classify_request text md) = Inr response_text
          \<and> parse (response_json response_text) = Some result
          \<and> (property result ''type'' = JStr ''article'' \<longrightarrow> res_type r = ARTICLE)
          \<and> (property result ''type'' = JStr ''chat'' \<longrightarrow> res_type r = CHAT)
          \<and> (property result ''type'' \<noteq> JStr ''article''
               \<and> property result ''type'' \<noteq> JStr ''chat'' \<longrightarrow> res_type r = THOUGHT)
          \<and> (property result ''title'' = JUndefined \<longrightarrow> res_title r = JStr ''Untitled Note'')
          \<and> (property result ''summary'' = JUndefined \<longrightarrow>
                res_summary r = JStr ''No summary available.'')
          \<and> (property result ''content'' = JUndefined \<longrightarrow> res_content r = JStr text)"
    by blast
next
  assume b: "\<not> falsy apiKey \<and> gen (classify_request text md) = Inr response_text
        \<and> parse (response_json response_text) = Some result
        \<and> result \<noteq> JNull \<and> result \<noteq> JUndefined"
  then obtain r where "map_response result text = Inr r"
    using map_response_returns by blast
  with b show "\<exists>r. classifyContent apiKey gen parse text md = Inr r"
    by (simp add: classifyContent_def getClient_def)
qed

lemma response_json_fenced: "response_json (Some fenced_reply) = ''{\"type\": \"video\"}''"
  by (simp add: response_json_def fenced_reply_def falsy_def strip_fence_open_def
      strip_fence_close_def is_space_def newline_def)

theorem classifyContent_result_witness:
  "classifyContent (Some ''key'') sample_generate sample_parse ''my text'' None
     = Inr \<lparr> res_type = THOUGHT, res_title = JStr ''Untitled Note'',
             res_summary = JStr ''No summary available.'', res_sourceUrl = JUndefined,
             res_content = JStr ''my text'' \<rparr>
   \<and> res_type (projr (classifyContent (Some ''key'') sample_generate sample_parse ''my text'' None))
       \<in> {THOUGHT, ARTICLE, CHAT}"
proof -
  have c: "classifyContent (Some ''key'') sample_generate sample_parse ''my text'' None
     = Inr \<lparr> res_type = THOUGHT, res_title = JStr ''Untitled Note'',
             res_summary = JStr ''No summary available.'', res_sourceUrl = JUndefined,
             res_content = JStr ''my text'' \<rparr>"
    by (simp add: classifyContent_def getClient_def falsy_def sample_generate_def
        response_json_fenced sample_parse_def map_response_def or_else_def)
  from classifyContent_result[of "Some ''key''" sample_generate sample_parse "''my text''" None
      "\<lparr> res_type = THOUGHT, res_title = JStr ''Untitled Note'',
             res_summary = JStr ''No summary available.'', res_sourceUrl = JUndefined,
             res_content = JStr ''my text'' \<rparr>"] c
  have "res_type \<lparr> res_type = THOUGHT, res_title = JStr ''Untitled Note'',
             res_summary = JStr ''No summary available.'', res_sourceUrl = JUndefined,
             res_content = JStr ''my text'' \<rparr> \<in> {THOUGHT, ARTICLE, CHAT}"
    by blast
  with c show ?thesis by simp
qed

section \<open>The weekly report\<close>

text \<open>
  C10. With an API key present generateWeeklyReport always returns a text and throws
  nothing: the fixed text about network or quota when the generation call throws, the
  text "Failed to generate report." when the call answers with no text or an empty one,
  and the text of the answer otherwise.
\<close>

theorem generateWeeklyReport_never_rejects:
  assumes "\<not> falsy apiKey"
  shows "(\<exists>report. generateWeeklyReport apiKey gen fmt str items = Inr report)
     \<and> (gen (report_request fmt str items) = Inl e \<longrightarrow>
          generateWeeklyReport apiKey gen fmt str items
            = Inr ''Failed to generate report. Please check your network or API quota.'')
     \<and> (gen (report_request fmt str items) = Inr None
          \<or> gen (report_request fmt str items) = Inr (Some []) \<longrightarrow>
          generateWeeklyReport apiKey gen fmt str items = Inr ''Failed to generate report.'')
     \<and> (gen (report_request fmt str items) = Inr (Some t) \<and> t \<noteq> [] \<longrightarrow>
          generateWeeklyReport apiKey gen fmt str items = Inr t)"
  using assms
  by (auto simp add: generateWeeklyReport_def getClient_def falsy_def
      split: sum.splits option.splits)

theorem generateWeeklyReport_never_rejects_witness:
  "generateWeeklyReport (Some ''key'') failing_generate sample_date sample_stringify [sample_note]
     = Inr ''Failed to generate report. Please check your network or API quota.''
   \<and> generateWeeklyReport (Some ''key'') empty_generate sample_date sample_stringify [sample_note]
     = Inr ''Failed to generate report.''"
proof -
  have k: "\<not> falsy (Some ''key'')"
    by (simp add: falsy_def)
  have f: "failing_generate (report_request sample_date sample_stringify [sample_note])
      = Inl (GenerateContentError ''quota'')"
    by (simp add: failing_generate_def)
  have e: "empty_generate (report_request sample_date sample_stringify [sample_note])
      = Inr (Some [])"
    by (simp add: empty_generate_def)
  from generateWeeklyReport_never_rejects[OF k, of failing_generate sample_date sample_stringify
      "[sample_note]" "GenerateContentError ''quota''"] f
  have 1: "generateWeeklyReport (Some ''key'') failing_generate sample_date sample_stringify
      [sample_note] = Inr ''Failed to generate report. Please check your network or API quota.''"
    by blast
  from generateWeeklyReport_never_rejects[OF k, of empty_generate sample_date sample_stringify
      "[sample_note]"] e
  have 2: "generateWeeklyReport (Some ''key'') empty_generate sample_date sample_stringify
      [sample_note] = Inr ''Failed to generate report.''"
    by blast
  from 1 2 show ?thesis by (intro conjI)
qed

end
